theory Spec2Isabelle
  imports Main "HOL-Library.Word" "HOL-Library.Sublist" "HOL-Library.AList"
begin

section \<open>HealthChain backend: consent-gated encrypted records\<close>

text \<open>
  A shallow embedding of \<^verbatim>\<open>src/index.js\<close>. The module-level variables of the server
  (\<^verbatim>\<open>consents\<close>, \<^verbatim>\<open>records\<close>, \<^verbatim>\<open>audit\<close>, the key), the ledger file and the uploads
  directory form one state record; every route handler is a function from the state, the
  request and the values drawn from the clock and the random source during that request
  to the new state and the response. Identifiers are strings, as in the data model of the
  specification; a request field that is absent is \<open>None\<close>. Writing and deleting
  files succeeds; reading fails where the file is missing or, for the ledger, does not
  parse, which are the cases the code tests for or catches.
\<close>

subsection \<open>Bytes and hexadecimal text\<close>

type_synonym byte = "8 word"
type_synonym buffer = "byte list"

definition hex_digit :: "nat \<Rightarrow> char" where
  "hex_digit n = ''0123456789abcdef'' ! n"

text \<open>\<^verbatim>\<open>buf.toString("hex")\<close>: two lower-case digits for each byte.\<close>

definition hex_byte :: "byte \<Rightarrow> string" where
  "hex_byte b = [hex_digit (unat b div 16), hex_digit (unat b mod 16)]"

definition toString_hex :: "buffer \<Rightarrow> string" where
  "toString_hex bs = concat (map hex_byte bs)"

definition hex_val :: "char \<Rightarrow> nat option" where
  "hex_val c =
     (let n = (of_char c :: nat) in
      if 48 \<le> n \<and> n \<le> 57 then Some (n - 48)
      else if 97 \<le> n \<and> n \<le> 102 then Some (n - 87)
      else if 65 \<le> n \<and> n \<le> 70 then Some (n - 55)
      else None)"

text \<open>
  \<^verbatim>\<open>Buffer.from(s, "hex")\<close>: decodes pairs of digits and stops at the first pair that is
  not hexadecimal; a trailing single character is dropped.
\<close>

fun Buffer_from_hex :: "string \<Rightarrow> buffer" where
  "Buffer_from_hex (a # b # rest) =
     (case hex_val a of
        None \<Rightarrow> []
      | Some h \<Rightarrow>
          (case hex_val b of
             None \<Rightarrow> []
           | Some l \<Rightarrow> of_nat (h * 16 + l) # Buffer_from_hex rest))"
| "Buffer_from_hex _ = []"

subsection \<open>Values drawn during one request\<close>

text \<open>
  \<^verbatim>\<open>nowIso()\<close> and \<^verbatim>\<open>crypto.randomBytes(n)\<close> are inputs of the model: \<open>nowIso d k\<close> is what
  the \<open>k\<close>-th call of \<^verbatim>\<open>nowIso()\<close> in the request returned, \<open>tx_rand\<close> the 12 bytes drawn
  by \<^verbatim>\<open>newTxId\<close>, \<open>rid_rand\<close> the 8 bytes drawn for a record identifier and \<open>iv_rand\<close> the
  16 bytes drawn by \<^verbatim>\<open>encryptBuffer\<close>.
\<close>

record draws =
  nowIso :: "nat \<Rightarrow> string"
  tx_rand :: buffer
  rid_rand :: buffer
  iv_rand :: buffer

definition newTxId :: "buffer \<Rightarrow> string" where
  "newTxId rnd = ''0x'' @ toString_hex rnd"

subsection \<open>The cipher\<close>

text \<open>
  \<^verbatim>\<open>crypto.createCipheriv("aes-256-cbc", key, iv)\<close> and its inverse belong to the
  platform's library, not to this repository, so they are a parameter of the model:
  \<open>aes_encrypt C key iv plain\<close> is the concatenation of \<^verbatim>\<open>cipher.update\<close> and
  \<^verbatim>\<open>cipher.final\<close>, and \<open>None\<close> means that the library threw (a key or initialisation
  vector of the wrong length, a padding that does not check).
\<close>

record cipher =
  aes_encrypt :: "buffer \<Rightarrow> buffer \<Rightarrow> buffer \<Rightarrow> buffer option"
  aes_decrypt :: "buffer \<Rightarrow> buffer \<Rightarrow> buffer \<Rightarrow> buffer option"

record encrypted =
  enc_iv :: string
  enc_data :: string

definition encryptBuffer :: "cipher \<Rightarrow> buffer \<Rightarrow> buffer \<Rightarrow> buffer \<Rightarrow> encrypted option" where
  "encryptBuffer C key ivb buf =
     (case aes_encrypt C key ivb buf of
        None \<Rightarrow> None
      | Some enc \<Rightarrow> Some \<lparr>enc_iv = toString_hex ivb, enc_data = toString_hex enc\<rparr>)"

definition decryptBuffer :: "cipher \<Rightarrow> buffer \<Rightarrow> string \<Rightarrow> string \<Rightarrow> buffer option" where
  "decryptBuffer C key hexData hexIv =
     (let ivb = Buffer_from_hex hexIv;
          encryptedText = Buffer_from_hex hexData
      in aes_decrypt C key ivb encryptedText)"

text \<open>
  What the library promises for the key in use: with a 16-byte initialisation vector,
  encryption succeeds and decryption under the same key and vector gives the plaintext
  back.
\<close>

definition cipher_ok :: "cipher \<Rightarrow> buffer \<Rightarrow> bool" where
  "cipher_ok C key =
     (\<forall>ivb buf. length ivb = 16 \<longrightarrow>
        (case aes_encrypt C key ivb buf of
           None \<Rightarrow> False
         | Some enc \<Rightarrow> aes_decrypt C key ivb enc = Some buf))"

subsection \<open>The state of the server\<close>

record consent =
  c_patientId :: string
  c_providerId :: string
  granted :: bool
  c_timestamp :: string

record record_meta =
  recordId :: string
  r_patientId :: string
  r_providerId :: string
  filename :: string
  date :: string
  r_iv :: string

record audit_entry =
  txId :: string
  action :: string
  actor :: string
  target :: string
  a_timestamp :: string

text \<open>A ledger entry is a JavaScript object with string fields, kept in key order.\<close>

type_synonym ledger_entry = "(string \<times> string) list"

text \<open>
  The ledger file holds what \<^verbatim>\<open>JSON.stringify\<close> wrote, and \<^verbatim>\<open>JSON.parse\<close> of that text
  is the array that was written, so the file is kept as the array. \<open>Absent\<close> and
  \<open>Garbage\<close> are the two ways \<^verbatim>\<open>readLedger\<close> reaches its \<^verbatim>\<open>catch\<close>.
\<close>

datatype ledger_file = Absent | Garbage | Json_array "ledger_entry list"

text \<open>
  A file of the uploads directory is either the raw bytes stored by the upload
  middleware or the JSON text of an \<^verbatim>\<open>{iv, data}\<close> object.
\<close>

datatype upload_file = Raw buffer | Enc_json encrypted

record server_state =
  ENC_KEY :: buffer
  patients :: "(string \<times> string) list"
  providers :: "(string \<times> string) list"
  consents :: "consent list"
  records :: "record_meta list"
  audit :: "audit_entry list"
  LEDGER_FILE :: ledger_file
  UPLOADS :: "string \<rightharpoonup> upload_file"

text \<open>
  Module initialisation: the ledger file is created with an empty array only when it does
  not exist; the uploads directory and an existing ledger are kept as they are.
\<close>

definition startup :: "buffer \<Rightarrow> ledger_file \<Rightarrow> (string \<rightharpoonup> upload_file) \<Rightarrow> server_state" where
  "startup key ledger_on_disk uploads_on_disk =
     \<lparr>ENC_KEY = key,
      patients = [(''pat-1'', ''John Doe'')],
      providers = [(''doc-1'', ''Dr. Smith'')],
      consents = [],
      records = [],
      audit = [],
      LEDGER_FILE = (case ledger_on_disk of Absent \<Rightarrow> Json_array [] | f \<Rightarrow> f),
      UPLOADS = uploads_on_disk\<rparr>"

subsection \<open>Ledger helpers\<close>

definition readLedger :: "server_state \<Rightarrow> ledger_entry list" where
  "readLedger st = (case LEDGER_FILE st of Json_array l \<Rightarrow> l | _ \<Rightarrow> [])"

text \<open>\<^verbatim>\<open>{ ...entry, timestamp: nowIso() }\<close> sets the key in place or adds it at the end.\<close>

definition addToLedger :: "server_state \<Rightarrow> ledger_entry \<Rightarrow> string \<Rightarrow> server_state" where
  "addToLedger st entry t =
     (let ledger = readLedger st;
          ledger' = ledger @ [AList.update ''timestamp'' t entry]
      in st\<lparr>LEDGER_FILE := Json_array ledger'\<rparr>)"

subsection \<open>Requests and responses\<close>

datatype error =
    InvalidArgument   \<comment> \<open>status 400\<close>
  | AccessDenied      \<comment> \<open>status 403\<close>
  | NotFound          \<comment> \<open>status 404, record not found\<close>
  | StorageMissing    \<comment> \<open>status 404, encrypted file missing\<close>
  | DecryptionFailed  \<comment> \<open>status 500, decryption failed\<close>
  | ServerError       \<comment> \<open>status 500, server error\<close>

text \<open>\<^verbatim>\<open>!v\<close> for a request field: the field is absent or the empty string.\<close>

definition falsy :: "string option \<Rightarrow> bool" where
  "falsy v = (case v of None \<Rightarrow> True | Some s \<Rightarrow> s = [])"

record consent_body =
  patientId :: "string option"
  providerId :: "string option"

text \<open>
  The upload request after the middleware \<^verbatim>\<open>upload.single("file")\<close>: \<open>ar_file\<close> is
  \<^verbatim>\<open>req.file\<close>, the name the middleware generated and the bytes it stored under it.
\<close>

record upload_req =
  ar_patientId :: "string option"
  ar_providerId :: "string option"
  ar_file :: "(string \<times> buffer) option"

record record_view =
  v_recordId :: string
  v_patientId :: string
  v_providerId :: string
  v_filename :: string
  v_date :: string

text \<open>
  The consent check, written three times in the source (\<^verbatim>\<open>allowed\<close>, \<^verbatim>\<open>hasConsent\<close>,
  \<^verbatim>\<open>allowed\<close>) as \<^verbatim>\<open>consents.some(c => ... && c.granted === true)\<close>.
\<close>

definition hasConsent :: "server_state \<Rightarrow> string \<Rightarrow> string \<Rightarrow> bool" where
  "hasConsent st p r =
     list_ex (\<lambda>c. c_patientId c = p \<and> c_providerId c = r \<and> granted c = True) (consents st)"

subsection \<open>Route handlers\<close>

definition grantConsent ::
  "server_state \<Rightarrow> consent_body \<Rightarrow> draws \<Rightarrow> server_state \<times> (error + string \<times> string)" where
  "grantConsent st body d =
     (if falsy (patientId body) \<or> falsy (providerId body) then (st, Inl InvalidArgument)
      else
        let p = the (patientId body);
            r = the (providerId body);
            kept = filter (\<lambda>c. \<not> (c_patientId c = p \<and> c_providerId c = r)) (consents st);
            st1 = st\<lparr>consents := kept @
                    [\<lparr>c_patientId = p, c_providerId = r, granted = True,
                      c_timestamp = nowIso d 0\<rparr>]\<rparr>;
            tx = newTxId (tx_rand d);
            st2 = st1\<lparr>audit := audit st1 @
                    [\<lparr>txId = tx, action = ''GRANT_CONSENT'', actor = p, target = r,
                      a_timestamp = nowIso d 1\<rparr>]\<rparr>;
            st3 = addToLedger st2
                    [(''type'', ''CONSENT_GRANTED''), (''patientId'', p), (''providerId'', r),
                     (''tx'', tx)]
                    (nowIso d 2)
        in (st3, Inr (tx, nowIso d 3)))"

definition revokeConsent ::
  "server_state \<Rightarrow> consent_body \<Rightarrow> draws \<Rightarrow> server_state \<times> (error + string \<times> string)" where
  "revokeConsent st body d =
     (if falsy (patientId body) \<or> falsy (providerId body) then (st, Inl InvalidArgument)
      else
        let p = the (patientId body);
            r = the (providerId body);
            kept = filter (\<lambda>c. \<not> (c_patientId c = p \<and> c_providerId c = r)) (consents st);
            st1 = st\<lparr>consents := kept @
                    [\<lparr>c_patientId = p, c_providerId = r, granted = False,
                      c_timestamp = nowIso d 0\<rparr>]\<rparr>;
            tx = newTxId (tx_rand d);
            st2 = st1\<lparr>audit := audit st1 @
                    [\<lparr>txId = tx, action = ''REVOKE_CONSENT'', actor = p, target = r,
                      a_timestamp = nowIso d 1\<rparr>]\<rparr>;
            st3 = addToLedger st2
                    [(''type'', ''CONSENT_REVOKED''), (''patientId'', p), (''providerId'', r),
                     (''tx'', tx)]
                    (nowIso d 2)
        in (st3, Inr (tx, nowIso d 3)))"

text \<open>The middleware stores the uploaded bytes under the name it generated.\<close>

definition multer_single :: "server_state \<Rightarrow> upload_req \<Rightarrow> server_state" where
  "multer_single st req =
     (case ar_file req of
        None \<Rightarrow> st
      | Some (fn, buf) \<Rightarrow> st\<lparr>UPLOADS := (UPLOADS st)(fn \<mapsto> Raw buf)\<rparr>)"

text \<open>
  \<^verbatim>\<open>if (req.file && req.file.path && fs.existsSync(req.file.path)) fs.unlinkSync(...)\<close>
\<close>

definition unlink_tmp :: "server_state \<Rightarrow> upload_req \<Rightarrow> server_state" where
  "unlink_tmp st req =
     (case ar_file req of
        None \<Rightarrow> st
      | Some (fn, buf) \<Rightarrow> st\<lparr>UPLOADS := (UPLOADS st)(fn := None)\<rparr>)"

text \<open>
  \<^verbatim>\<open>POST /api/add-record\<close>. \<^verbatim>\<open>fs.readFileSync(tmpPath)\<close> reads the file the middleware
  has just stored, so \<open>buf\<close> is the uploaded bytes. An exception of \<^verbatim>\<open>encryptBuffer\<close>
  reaches the \<^verbatim>\<open>catch\<close> with the temporary file still in place.
\<close>

definition addRecord ::
  "cipher \<Rightarrow> server_state \<Rightarrow> upload_req \<Rightarrow> draws \<Rightarrow>
     server_state \<times> (error + record_meta \<times> string)" where
  "addRecord C st0 req d =
     (let st = multer_single st0 req in
      if falsy (ar_patientId req) \<or> falsy (ar_providerId req)
      then (unlink_tmp st req, Inl InvalidArgument)
      else
        (case ar_file req of
           None \<Rightarrow> (st, Inl InvalidArgument)
         | Some (fn, buf) \<Rightarrow>
             let p = the (ar_patientId req);
                 r = the (ar_providerId req)
             in
               if \<not> hasConsent st p r then (unlink_tmp st req, Inl AccessDenied)
               else
                 (case encryptBuffer C (ENC_KEY st) (iv_rand d) buf of
                    None \<Rightarrow> (st, Inl ServerError)
                  | Some enc \<Rightarrow>
                      let encFilename = fn @ ''.enc'';
                          st1 = st\<lparr>UPLOADS := (UPLOADS st)(encFilename \<mapsto> Enc_json enc)\<rparr>;
                          st2 = st1\<lparr>UPLOADS := (UPLOADS st1)(fn := None)\<rparr>;
                          rec = \<lparr>recordId = ''0x'' @ toString_hex (rid_rand d),
                                 r_patientId = p, r_providerId = r,
                                 filename = encFilename, date = nowIso d 0,
                                 r_iv = enc_iv enc\<rparr>;
                          st3 = st2\<lparr>records := records st2 @ [rec]\<rparr>;
                          tx = newTxId (tx_rand d);
                          st4 = st3\<lparr>audit := audit st3 @
                                  [\<lparr>txId = tx, action = ''ADD_RECORD'', actor = r,
                                    target = recordId rec, a_timestamp = nowIso d 1\<rparr>]\<rparr>;
                          st5 = addToLedger st4
                                  [(''type'', ''RECORD_ADDED''), (''recordId'', recordId rec),
                                   (''tx'', tx)]
                                  (nowIso d 2)
                      in (st5, Inr (rec, tx)))))"

definition view :: "record_meta \<Rightarrow> record_view" where
  "view r = \<lparr>v_recordId = recordId r, v_patientId = r_patientId r,
             v_providerId = r_providerId r, v_filename = filename r, v_date = date r\<rparr>"

text \<open>\<^verbatim>\<open>GET /api/records/:patientId/:providerId\<close>\<close>

definition listRecords ::
  "server_state \<Rightarrow> string \<Rightarrow> string \<Rightarrow> draws \<Rightarrow>
     server_state \<times> (error + record_view list \<times> string)" where
  "listRecords st p r d =
     (if \<not> hasConsent st p r then (st, Inl AccessDenied)
      else
        let recs = map view (filter (\<lambda>x. r_patientId x = p) (records st));
            tx = newTxId (tx_rand d);
            st1 = st\<lparr>audit := audit st @
                    [\<lparr>txId = tx, action = ''READ_RECORDS'', actor = r, target = p,
                      a_timestamp = nowIso d 0\<rparr>]\<rparr>;
            st2 = addToLedger st1
                    [(''type'', ''READ_RECORDS''), (''patientId'', p), (''providerId'', r),
                     (''tx'', tx)]
                    (nowIso d 1)
        in (st2, Inr (recs, tx)))"

text \<open>
  \<^verbatim>\<open>GET /api/decrypt/:recordId?providerId=...\<close>. The response is the decrypted bytes; its
  headers are left out. A file under the record's name that is not the JSON text of an
  \<^verbatim>\<open>{iv, data}\<close> object ends in the \<^verbatim>\<open>catch\<close>, like an exception of the cipher.
\<close>

definition decryptRecord ::
  "cipher \<Rightarrow> server_state \<Rightarrow> string \<Rightarrow> string option \<Rightarrow> draws \<Rightarrow>
     server_state \<times> (error + buffer)" where
  "decryptRecord C st rid prov d =
     (if falsy prov then (st, Inl InvalidArgument)
      else
        (case find (\<lambda>r. recordId r = rid) (records st) of
           None \<Rightarrow> (st, Inl NotFound)
         | Some rec \<Rightarrow>
             let r = the prov in
               if \<not> hasConsent st (r_patientId rec) r then (st, Inl AccessDenied)
               else
                 (case UPLOADS st (filename rec) of
                    None \<Rightarrow> (st, Inl StorageMissing)
                  | Some (Raw raw) \<Rightarrow> (st, Inl DecryptionFailed)
                  | Some (Enc_json enc) \<Rightarrow>
                      (case decryptBuffer C (ENC_KEY st) (enc_data enc) (enc_iv enc) of
                         None \<Rightarrow> (st, Inl DecryptionFailed)
                       | Some decrypted \<Rightarrow>
                           let tx = newTxId (tx_rand d);
                               st1 = st\<lparr>audit := audit st @
                                       [\<lparr>txId = tx, action = ''DOWNLOAD_DECRYPT'', actor = r,
                                         target = rid, a_timestamp = nowIso d 0\<rparr>]\<rparr>;
                               st2 = addToLedger st1
                                       [(''type'', ''DOWNLOAD_DECRYPT''), (''recordId'', rid),
                                        (''tx'', tx), (''actor'', r)]
                                       (nowIso d 1)
                           in (st2, Inr decrypted)))))"

subsection \<open>Sequences of requests\<close>

datatype request =
    GrantConsent consent_body
  | RevokeConsent consent_body
  | AddRecord upload_req
  | ListRecords string string
  | DecryptRecord string "string option"
  | ReadAudit
  | ReadLedger

fun step :: "cipher \<Rightarrow> server_state \<Rightarrow> request \<times> draws \<Rightarrow> server_state" where
  "step C st (GrantConsent body, d) = fst (grantConsent st body d)"
| "step C st (RevokeConsent body, d) = fst (revokeConsent st body d)"
| "step C st (AddRecord req, d) = fst (addRecord C st req d)"
| "step C st (ListRecords p r, d) = fst (listRecords st p r d)"
| "step C st (DecryptRecord rid prov, d) = fst (decryptRecord C st rid prov d)"
| "step C st (ReadAudit, d) = st"
| "step C st (ReadLedger, d) = st"

definition run :: "cipher \<Rightarrow> server_state \<Rightarrow> (request \<times> draws) list \<Rightarrow> server_state" where
  "run C st rs = foldl (step C) st rs"

subsection \<open>Notions used to state the properties\<close>

text \<open>
  The effect of one request on the pair \<open>(p, r)\<close>: a grant or a revoke that names exactly
  this pair, with both identifiers present and non-empty, writes \<open>True\<close> or \<open>False\<close>;
  every other request writes nothing for the pair.
\<close>

fun mutation :: "string \<Rightarrow> string \<Rightarrow> request \<Rightarrow> bool option" where
  "mutation p r (GrantConsent b) =
     (if patientId b = Some p \<and> providerId b = Some r \<and> p \<noteq> [] \<and> r \<noteq> []
      then Some True else None)"
| "mutation p r (RevokeConsent b) =
     (if patientId b = Some p \<and> providerId b = Some r \<and> p \<noteq> [] \<and> r \<noteq> []
      then Some False else None)"
| "mutation p r _ = None"

text \<open>The boolean of the most recent mutator call for the pair in a sequence of requests.\<close>

fun last_mutation :: "string \<Rightarrow> string \<Rightarrow> (request \<times> draws) list \<Rightarrow> bool option" where
  "last_mutation p r [] = None"
| "last_mutation p r (x # xs) =
     (case last_mutation p r xs of Some b \<Rightarrow> Some b | None \<Rightarrow> mutation p r (fst x))"

definition pair_of :: "consent \<Rightarrow> string \<times> string" where
  "pair_of c = (c_patientId c, c_providerId c)"

definition one_entry_per_pair :: "server_state \<Rightarrow> bool" where
  "one_entry_per_pair st = distinct (map pair_of (consents st))"

subsection \<open>Concrete inputs\<close>

text \<open>
  A stand-in for the library's cipher, used to evaluate the model on concrete inputs: it
  adds one to every byte.
\<close>

definition shift_cipher :: cipher where
  "shift_cipher =
     \<lparr>aes_encrypt = (\<lambda>key ivb buf. Some (map (\<lambda>b. b + 1) buf)),
      aes_decrypt = (\<lambda>key ivb enc. Some (map (\<lambda>b. b - 1) enc))\<rparr>"

definition demo_draws :: "byte \<Rightarrow> draws" where
  "demo_draws n =
     \<lparr>nowIso = (\<lambda>k. ''2026-01-01T00:00:00.000Z''),
      tx_rand = [n, 0x3c, 0xa1, 0x07, 0xee, 0x52, 0x9b, 0x10, 0xd4, 0x68, 0x2f, 0xb3],
      rid_rand = [n, 0x81, 0x4e, 0xf0, 0x25, 0xc7, 0x6a, 0x19],
      iv_rand = [n, 0x5d, 0x02, 0xe9, 0x74, 0xbb, 0x30, 0x8c,
                 0x46, 0xf1, 0x1a, 0xa7, 0xc3, 0x59, 0x0e, 0x92]\<rparr>"

definition demo_key :: buffer where
  "demo_key = replicate 32 7"

definition demo_state :: server_state where
  "demo_state = startup demo_key Absent Map.empty"

definition pat1_doc1 :: consent_body where
  "pat1_doc1 = \<lparr>patientId = Some ''pat-1'', providerId = Some ''doc-1''\<rparr>"

text \<open>The record that a successful upload appends.\<close>

definition new_record :: "string \<Rightarrow> string \<Rightarrow> string \<Rightarrow> encrypted \<Rightarrow> draws \<Rightarrow> record_meta" where
  "new_record p r fn enc d =
     \<lparr>recordId = ''0x'' @ toString_hex (rid_rand d), r_patientId = p, r_providerId = r,
      filename = fn @ ''.enc'', date = nowIso d 0, r_iv = enc_iv enc\<rparr>"

text \<open>
  Between \<open>st\<close> and \<open>st'\<close> exactly one audit entry and exactly one ledger entry were
  appended, and both carry the transaction identifier \<open>tx\<close>.
\<close>

definition logged_once :: "server_state \<Rightarrow> server_state \<Rightarrow> string \<Rightarrow> bool" where
  "logged_once st st' tx =
     (audit st' = audit st @ [last (audit st')] \<and> txId (last (audit st')) = tx \<and>
      readLedger st' = readLedger st @ [last (readLedger st')] \<and>
      map_of (last (readLedger st')) ''tx'' = Some tx)"

text \<open>An upload of the five bytes of \<^verbatim>\<open>hello\<close> by \<open>doc-1\<close> for \<open>pat-1\<close>.\<close>

definition upload_hello :: upload_req where
  "upload_hello =
     \<lparr>ar_patientId = Some ''pat-1'', ar_providerId = Some ''doc-1'',
      ar_file = Some (''5b1e46a09c3d'', [0x68, 0x65, 0x6c, 0x6c, 0x6f])\<rparr>"

definition granted_state :: server_state where
  "granted_state = fst (grantConsent demo_state pat1_doc1 (demo_draws 1))"

definition stored_state :: server_state where
  "stored_state = fst (addRecord shift_cipher granted_state upload_hello (demo_draws 2))"

definition hello_enc :: encrypted where
  "hello_enc = \<lparr>enc_iv = toString_hex (iv_rand (demo_draws 2)),
                 enc_data = toString_hex [0x69, 0x66, 0x6d, 0x6d, 0x70]\<rparr>"

definition hello_record :: record_meta where
  "hello_record = new_record ''pat-1'' ''doc-1'' ''5b1e46a09c3d'' hello_enc (demo_draws 2)"

text \<open>A cipher whose every call throws.\<close>

definition reject_cipher :: cipher where
  "reject_cipher =
     \<lparr>aes_encrypt = (\<lambda>key ivb buf. None), aes_decrypt = (\<lambda>key ivb enc. None)\<rparr>"


text \<open>A second upload, for which the random source returns the eight bytes it returned before.\<close>

definition upload_again :: upload_req where
  "upload_again =
     \<lparr>ar_patientId = Some ''pat-1'', ar_providerId = Some ''doc-1'',
      ar_file = Some (''c07d2e915a44'', [0x62, 0x79, 0x65])\<rparr>"

definition redraw :: draws where
  "redraw = (demo_draws 9)\<lparr>rid_rand := rid_rand (demo_draws 2)\<rparr>"

text \<open>
  A state in which a record of \<open>pat-2\<close> already carries the identifier that the random
  source returns again for the next upload, and the state after that upload.
\<close>

definition pat2_doc1 :: consent_body where
  "pat2_doc1 = \<lparr>patientId = Some ''pat-2'', providerId = Some ''doc-1''\<rparr>"

definition upload_other :: upload_req where
  "upload_other =
     \<lparr>ar_patientId = Some ''pat-2'', ar_providerId = Some ''doc-1'',
      ar_file = Some (''9d04c7a1e35b'', [0x01, 0x02, 0x03])\<rparr>"

definition shared_id_state :: server_state where
  "shared_id_state =
     run shift_cipher demo_state
       [(GrantConsent pat2_doc1, demo_draws 1), (AddRecord upload_other, demo_draws 2),
        (GrantConsent pat1_doc1, demo_draws 3)]"

definition twice_state :: server_state where
  "twice_state = fst (addRecord shift_cipher shared_id_state upload_hello redraw)"

section \<open>Properties\<close>

subsection \<open>Hexadecimal text\<close>

lemma hex_digits_decode: "list_all (\<lambda>n. hex_val (hex_digit n) = Some n) [0..<16]"
  by code_simp

lemma hex_val_hex_digit: "n < 16 \<Longrightarrow> hex_val (hex_digit n) = Some n"
  using hex_digits_decode by (simp add: list_all_iff)

lemma Buffer_from_hex_byte:
  "Buffer_from_hex (hex_byte b @ s) = b # Buffer_from_hex s"
proof -
  have "unat b < 2 ^ LENGTH(8)" by (rule unsigned_less)
  then have "unat b < 256" by simp
  then have d: "unat b div 16 < 16" and m: "unat b mod 16 < 16" by auto
  have "unat b div 16 * 16 + unat b mod 16 = unat b" by simp
  then show ?thesis
    by (simp add: hex_byte_def hex_val_hex_digit [OF d] hex_val_hex_digit [OF m])
qed

lemma Buffer_from_toString_hex: "Buffer_from_hex (toString_hex bs) = bs"
  by (induction bs) (simp_all add: toString_hex_def Buffer_from_hex_byte)

lemma toString_hex_inject: "toString_hex a = toString_hex b \<longleftrightarrow> a = b"
  by (metis Buffer_from_toString_hex)

subsection \<open>Consent registry\<close>

lemma falsy_conv: "falsy v \<longleftrightarrow> v = None \<or> v = Some []"
  by (simp add: falsy_def split: option.splits)

lemma addToLedger_frame [simp]:
  "ENC_KEY (addToLedger st e t) = ENC_KEY st"
  "consents (addToLedger st e t) = consents st"
  "records (addToLedger st e t) = records st"
  "audit (addToLedger st e t) = audit st"
  "UPLOADS (addToLedger st e t) = UPLOADS st"
  by (simp_all add: addToLedger_def Let_def)

lemma readLedger_addToLedger [simp]:
  "readLedger (addToLedger st e t) = readLedger st @ [AList.update ''timestamp'' t e]"
  by (simp add: addToLedger_def readLedger_def Let_def)

lemma readLedger_frame [simp]:
  "readLedger (st\<lparr>consents := cs\<rparr>) = readLedger st"
  "readLedger (st\<lparr>records := rs\<rparr>) = readLedger st"
  "readLedger (st\<lparr>audit := au\<rparr>) = readLedger st"
  "readLedger (st\<lparr>UPLOADS := up\<rparr>) = readLedger st"
  by (simp_all add: readLedger_def)

lemma hasConsent_frame [simp]:
  "hasConsent (addToLedger st e t) p r = hasConsent st p r"
  "hasConsent (st\<lparr>records := rs\<rparr>) p r = hasConsent st p r"
  "hasConsent (st\<lparr>audit := au\<rparr>) p r = hasConsent st p r"
  "hasConsent (st\<lparr>UPLOADS := up\<rparr>) p r = hasConsent st p r"
  by (simp_all add: hasConsent_def)

lemma grantConsent_invalid:
  "falsy (patientId b) \<or> falsy (providerId b) \<Longrightarrow> grantConsent st b d = (st, Inl InvalidArgument)"
  by (simp add: grantConsent_def)

lemma revokeConsent_invalid:
  "falsy (patientId b) \<or> falsy (providerId b) \<Longrightarrow> revokeConsent st b d = (st, Inl InvalidArgument)"
  by (simp add: revokeConsent_def)

lemma grantConsent_valid:
  assumes "patientId b = Some p" "providerId b = Some r" "p \<noteq> []" "r \<noteq> []"
  shows "grantConsent st b d =
    (addToLedger
       (st\<lparr>consents := filter (\<lambda>c. \<not> (c_patientId c = p \<and> c_providerId c = r)) (consents st) @
                 [\<lparr>c_patientId = p, c_providerId = r, granted = True, c_timestamp = nowIso d 0\<rparr>],
            audit := audit st @
                 [\<lparr>txId = newTxId (tx_rand d), action = ''GRANT_CONSENT'', actor = p, target = r,
                   a_timestamp = nowIso d 1\<rparr>]\<rparr>)
       [(''type'', ''CONSENT_GRANTED''), (''patientId'', p), (''providerId'', r),
        (''tx'', newTxId (tx_rand d))]
       (nowIso d 2),
     Inr (newTxId (tx_rand d), nowIso d 3))"
  using assms by (simp add: grantConsent_def falsy_def Let_def)

lemma revokeConsent_valid:
  assumes "patientId b = Some p" "providerId b = Some r" "p \<noteq> []" "r \<noteq> []"
  shows "revokeConsent st b d =
    (addToLedger
       (st\<lparr>consents := filter (\<lambda>c. \<not> (c_patientId c = p \<and> c_providerId c = r)) (consents st) @
                 [\<lparr>c_patientId = p, c_providerId = r, granted = False, c_timestamp = nowIso d 0\<rparr>],
            audit := audit st @
                 [\<lparr>txId = newTxId (tx_rand d), action = ''REVOKE_CONSENT'', actor = p, target = r,
                   a_timestamp = nowIso d 1\<rparr>]\<rparr>)
       [(''type'', ''CONSENT_REVOKED''), (''patientId'', p), (''providerId'', r),
        (''tx'', newTxId (tx_rand d))]
       (nowIso d 2),
     Inr (newTxId (tx_rand d), nowIso d 3))"
  using assms by (simp add: revokeConsent_def falsy_def Let_def)

lemma body_cases:
  obtains "falsy (patientId b) \<or> falsy (providerId b)"
  | p r where "patientId b = Some p" "providerId b = Some r" "p \<noteq> []" "r \<noteq> []"
  by (cases "patientId b"; cases "providerId b") (auto simp: falsy_def)

lemma hasConsent_grantConsent:
  assumes "patientId b = Some p'" "providerId b = Some r'" "p' \<noteq> []" "r' \<noteq> []"
  shows "hasConsent (fst (grantConsent st b d)) p r =
           (if p = p' \<and> r = r' then True else hasConsent st p r)"
  by (auto simp: grantConsent_valid [OF assms] hasConsent_def list_ex_iff)

lemma hasConsent_revokeConsent:
  assumes "patientId b = Some p'" "providerId b = Some r'" "p' \<noteq> []" "r' \<noteq> []"
  shows "hasConsent (fst (revokeConsent st b d)) p r =
           (if p = p' \<and> r = r' then False else hasConsent st p r)"
  by (auto simp: revokeConsent_valid [OF assms] hasConsent_def list_ex_iff)

lemma consents_addRecord [simp]: "consents (fst (addRecord C st req d)) = consents st"
  by (simp add: addRecord_def multer_single_def unlink_tmp_def Let_def split: option.splits prod.splits)

lemma consents_listRecords [simp]: "consents (fst (listRecords st p r d)) = consents st"
  by (simp add: listRecords_def Let_def)

lemma consents_decryptRecord [simp]: "consents (fst (decryptRecord C st rid prov d)) = consents st"
  by (simp add: decryptRecord_def Let_def split: option.splits upload_file.splits)

lemma hasConsent_cong: "consents st = consents st' \<Longrightarrow> hasConsent st p r = hasConsent st' p r"
  by (simp add: hasConsent_def)

lemma hasConsent_step:
  "hasConsent (step C st x) p r =
     (case mutation p r (fst x) of None \<Rightarrow> hasConsent st p r | Some b \<Rightarrow> b)"
proof (cases x)
  case (Pair req d)
  show ?thesis
  proof (cases req)
    case (GrantConsent b)
    show ?thesis
    proof (cases b rule: body_cases)
      case 1
      then show ?thesis using Pair GrantConsent
        by (auto simp: grantConsent_invalid falsy_def)
    next
      case (2 p' r')
      then show ?thesis using Pair GrantConsent
        by (simp add: hasConsent_grantConsent [OF 2])
    qed
  next
    case (RevokeConsent b)
    show ?thesis
    proof (cases b rule: body_cases)
      case 1
      then show ?thesis using Pair RevokeConsent
        by (auto simp: revokeConsent_invalid falsy_def)
    next
      case (2 p' r')
      then show ?thesis using Pair RevokeConsent
        by (simp add: hasConsent_revokeConsent [OF 2])
    qed
  qed (simp_all add: Pair hasConsent_cong [OF consents_addRecord]
        hasConsent_cong [OF consents_listRecords] hasConsent_cong [OF consents_decryptRecord])
qed

lemma run_Nil [simp]: "run C st [] = st"
  by (simp add: run_def)

lemma run_Cons [simp]: "run C st (x # xs) = run C (step C st x) xs"
  by (simp add: run_def)

lemma run_append: "run C st (xs @ ys) = run C (run C st xs) ys"
  by (simp add: run_def)

lemma hasConsent_run:
  "hasConsent (run C st rs) p r =
     (case last_mutation p r rs of None \<Rightarrow> hasConsent st p r | Some b \<Rightarrow> b)"
proof (induction rs arbitrary: st)
  case Nil
  show ?case by simp
next
  case (Cons x xs)
  show ?case
    by (simp add: Cons.IH hasConsent_step split: option.splits)
qed

lemma hasConsent_startup [simp]: "hasConsent (startup key lf up) p r = False"
  by (simp add: hasConsent_def startup_def)

lemma one_entry_grantConsent:
  "one_entry_per_pair st \<Longrightarrow> one_entry_per_pair (fst (grantConsent st b d))"
  by (cases b rule: body_cases)
    (auto simp: grantConsent_invalid grantConsent_valid one_entry_per_pair_def
      distinct_map_filter pair_of_def)

lemma one_entry_revokeConsent:
  "one_entry_per_pair st \<Longrightarrow> one_entry_per_pair (fst (revokeConsent st b d))"
  by (cases b rule: body_cases)
    (auto simp: revokeConsent_invalid revokeConsent_valid one_entry_per_pair_def
      distinct_map_filter pair_of_def)

lemma one_entry_cong:
  "consents st' = consents st \<Longrightarrow> one_entry_per_pair st' = one_entry_per_pair st"
  by (simp add: one_entry_per_pair_def)

lemma one_entry_step: "one_entry_per_pair st \<Longrightarrow> one_entry_per_pair (step C st x)"
proof (cases x)
  case (Pair req d)
  assume inv: "one_entry_per_pair st"
  show ?thesis
    by (cases req)
      (use inv in \<open>simp_all add: Pair one_entry_grantConsent one_entry_revokeConsent
         one_entry_cong [OF consents_addRecord] one_entry_cong [OF consents_listRecords]
         one_entry_cong [OF consents_decryptRecord]\<close>)
qed

lemma one_entry_run: "one_entry_per_pair st \<Longrightarrow> one_entry_per_pair (run C st rs)"
  by (induction rs arbitrary: st) (simp_all add: one_entry_step)

subsection \<open>The handlers, case by case\<close>

lemma logged_onceI:
  "audit st' = audit st @ [a] \<Longrightarrow> txId a = tx \<Longrightarrow> readLedger st' = readLedger st @ [l] \<Longrightarrow>
   map_of l ''tx'' = Some tx \<Longrightarrow> logged_once st st' tx"
  by (simp add: logged_once_def)

lemma upload_cases:
  obtains "falsy (ar_patientId req) \<or> falsy (ar_providerId req)"
  | p r where "ar_patientId req = Some p" "ar_providerId req = Some r" "p \<noteq> []" "r \<noteq> []"
      "ar_file req = None"
  | p r fn buf where "ar_patientId req = Some p" "ar_providerId req = Some r" "p \<noteq> []" "r \<noteq> []"
      "ar_file req = Some (fn, buf)"
  by (cases "ar_patientId req"; cases "ar_providerId req"; cases "ar_file req")
    (auto simp: falsy_def)

lemma addRecord_invalid:
  "falsy (ar_patientId req) \<or> falsy (ar_providerId req) \<Longrightarrow>
   addRecord C st req d = (st\<lparr>UPLOADS := (case ar_file req of None \<Rightarrow> UPLOADS st
                                           | Some (fn, buf) \<Rightarrow> (UPLOADS st)(fn := None))\<rparr>,
                          Inl InvalidArgument)"
  by (auto simp: addRecord_def multer_single_def unlink_tmp_def Let_def split: option.splits)

lemma addRecord_no_file:
  assumes "ar_patientId req = Some p" "ar_providerId req = Some r" "p \<noteq> []" "r \<noteq> []"
    "ar_file req = None"
  shows "addRecord C st req d = (st, Inl InvalidArgument)"
  using assms by (simp add: addRecord_def multer_single_def falsy_def Let_def)

lemma addRecord_denied:
  assumes "ar_patientId req = Some p" "ar_providerId req = Some r" "p \<noteq> []" "r \<noteq> []"
    "ar_file req = Some (fn, buf)" "\<not> hasConsent st p r"
  shows "addRecord C st req d = (st\<lparr>UPLOADS := (UPLOADS st)(fn := None)\<rparr>, Inl AccessDenied)"
  using assms
  by (simp add: addRecord_def multer_single_def unlink_tmp_def falsy_def Let_def)

lemma addRecord_cipher_throws:
  assumes "ar_patientId req = Some p" "ar_providerId req = Some r" "p \<noteq> []" "r \<noteq> []"
    "ar_file req = Some (fn, buf)" "hasConsent st p r"
    "encryptBuffer C (ENC_KEY st) (iv_rand d) buf = None"
  shows "addRecord C st req d = (st\<lparr>UPLOADS := (UPLOADS st)(fn \<mapsto> Raw buf)\<rparr>, Inl ServerError)"
  using assms
  by (simp add: addRecord_def multer_single_def unlink_tmp_def falsy_def Let_def)

lemma addRecord_valid:
  assumes "ar_patientId req = Some p" "ar_providerId req = Some r" "p \<noteq> []" "r \<noteq> []"
    "ar_file req = Some (fn, buf)" "hasConsent st p r"
    "encryptBuffer C (ENC_KEY st) (iv_rand d) buf = Some enc"
  shows "addRecord C st req d =
    (addToLedger
       (st\<lparr>UPLOADS := ((UPLOADS st)(fn \<mapsto> Raw buf, fn @ ''.enc'' \<mapsto> Enc_json enc))(fn := None),
            records := records st @ [new_record p r fn enc d],
            audit := audit st @
              [\<lparr>txId = newTxId (tx_rand d), action = ''ADD_RECORD'', actor = r,
                target = ''0x'' @ toString_hex (rid_rand d), a_timestamp = nowIso d 1\<rparr>]\<rparr>)
       [(''type'', ''RECORD_ADDED''), (''recordId'', ''0x'' @ toString_hex (rid_rand d)),
        (''tx'', newTxId (tx_rand d))]
       (nowIso d 2),
     Inr (new_record p r fn enc d, newTxId (tx_rand d)))"
  using assms
  by (simp add: addRecord_def multer_single_def unlink_tmp_def falsy_def Let_def new_record_def)

lemma addRecord_InrD:
  assumes "addRecord C st req d = (st', Inr (rec, tx))"
  obtains p r fn buf enc where
    "ar_patientId req = Some p" "ar_providerId req = Some r" "p \<noteq> []" "r \<noteq> []"
    "ar_file req = Some (fn, buf)" "hasConsent st p r"
    "encryptBuffer C (ENC_KEY st) (iv_rand d) buf = Some enc"
proof (cases req rule: upload_cases)
  case 1
  then show ?thesis using assms by (simp add: addRecord_invalid)
next
  case (2 p r)
  then show ?thesis using assms by (simp add: addRecord_no_file [OF 2])
next
  case (3 p r fn buf)
  show ?thesis
  proof (cases "hasConsent st p r")
    case False
    then show ?thesis using assms by (simp add: addRecord_denied [OF 3])
  next
    case True
    show ?thesis
    proof (cases "encryptBuffer C (ENC_KEY st) (iv_rand d) buf")
      case None
      then show ?thesis using assms by (simp add: addRecord_cipher_throws [OF 3 True])
    next
      case (Some enc)
      then show ?thesis using that 3 True by blast
    qed
  qed
qed

lemma listRecords_denied:
  "\<not> hasConsent st p r \<Longrightarrow> listRecords st p r d = (st, Inl AccessDenied)"
  by (simp add: listRecords_def)

lemma listRecords_valid:
  "hasConsent st p r \<Longrightarrow> listRecords st p r d =
     (addToLedger
        (st\<lparr>audit := audit st @
              [\<lparr>txId = newTxId (tx_rand d), action = ''READ_RECORDS'', actor = r, target = p,
                a_timestamp = nowIso d 0\<rparr>]\<rparr>)
        [(''type'', ''READ_RECORDS''), (''patientId'', p), (''providerId'', r),
         (''tx'', newTxId (tx_rand d))]
        (nowIso d 1),
      Inr (map view (filter (\<lambda>x. r_patientId x = p) (records st)), newTxId (tx_rand d)))"
  by (simp add: listRecords_def Let_def)

lemma decryptRecord_no_provider:
  "falsy prov \<Longrightarrow> decryptRecord C st rid prov d = (st, Inl InvalidArgument)"
  by (simp add: decryptRecord_def)

lemma decryptRecord_not_found:
  "\<not> falsy prov \<Longrightarrow> find (\<lambda>x. recordId x = rid) (records st) = None \<Longrightarrow>
   decryptRecord C st rid prov d = (st, Inl NotFound)"
  by (simp add: decryptRecord_def)

lemma decryptRecord_denied:
  "prov = Some r \<Longrightarrow> r \<noteq> [] \<Longrightarrow> find (\<lambda>x. recordId x = rid) (records st) = Some rec \<Longrightarrow>
   \<not> hasConsent st (r_patientId rec) r \<Longrightarrow>
   decryptRecord C st rid prov d = (st, Inl AccessDenied)"
  by (simp add: decryptRecord_def falsy_def)

lemma decryptRecord_storage_missing:
  "prov = Some r \<Longrightarrow> r \<noteq> [] \<Longrightarrow> find (\<lambda>x. recordId x = rid) (records st) = Some rec \<Longrightarrow>
   hasConsent st (r_patientId rec) r \<Longrightarrow> UPLOADS st (filename rec) = None \<Longrightarrow>
   decryptRecord C st rid prov d = (st, Inl StorageMissing)"
  by (simp add: decryptRecord_def falsy_def)

lemma decryptRecord_not_json:
  "prov = Some r \<Longrightarrow> r \<noteq> [] \<Longrightarrow> find (\<lambda>x. recordId x = rid) (records st) = Some rec \<Longrightarrow>
   hasConsent st (r_patientId rec) r \<Longrightarrow> UPLOADS st (filename rec) = Some (Raw raw) \<Longrightarrow>
   decryptRecord C st rid prov d = (st, Inl DecryptionFailed)"
  by (simp add: decryptRecord_def falsy_def)

lemma decryptRecord_cipher_throws:
  "prov = Some r \<Longrightarrow> r \<noteq> [] \<Longrightarrow> find (\<lambda>x. recordId x = rid) (records st) = Some rec \<Longrightarrow>
   hasConsent st (r_patientId rec) r \<Longrightarrow> UPLOADS st (filename rec) = Some (Enc_json enc) \<Longrightarrow>
   decryptBuffer C (ENC_KEY st) (enc_data enc) (enc_iv enc) = None \<Longrightarrow>
   decryptRecord C st rid prov d = (st, Inl DecryptionFailed)"
  by (simp add: decryptRecord_def falsy_def)

lemma decryptRecord_valid:
  "prov = Some r \<Longrightarrow> r \<noteq> [] \<Longrightarrow> find (\<lambda>x. recordId x = rid) (records st) = Some rec \<Longrightarrow>
   hasConsent st (r_patientId rec) r \<Longrightarrow> UPLOADS st (filename rec) = Some (Enc_json enc) \<Longrightarrow>
   decryptBuffer C (ENC_KEY st) (enc_data enc) (enc_iv enc) = Some plain \<Longrightarrow>
   decryptRecord C st rid prov d =
     (addToLedger
        (st\<lparr>audit := audit st @
              [\<lparr>txId = newTxId (tx_rand d), action = ''DOWNLOAD_DECRYPT'', actor = r,
                target = rid, a_timestamp = nowIso d 0\<rparr>]\<rparr>)
        [(''type'', ''DOWNLOAD_DECRYPT''), (''recordId'', rid), (''tx'', newTxId (tx_rand d)),
         (''actor'', r)]
        (nowIso d 1),
      Inr plain)"
  by (simp add: decryptRecord_def falsy_def Let_def)

lemma decryptRecord_cases:
  obtains e where "decryptRecord C st rid prov d = (st, Inl e)"
  | r rec enc plain where "prov = Some r" "r \<noteq> []"
      "find (\<lambda>x. recordId x = rid) (records st) = Some rec"
      "hasConsent st (r_patientId rec) r" "UPLOADS st (filename rec) = Some (Enc_json enc)"
      "decryptBuffer C (ENC_KEY st) (enc_data enc) (enc_iv enc) = Some plain"
proof (cases "falsy prov")
  case True
  then show ?thesis using that(1) by (simp add: decryptRecord_no_provider)
next
  case nf: False
  then obtain r where r: "prov = Some r" "r \<noteq> []"
    by (cases prov) (auto simp: falsy_def)
  show ?thesis
  proof (cases "find (\<lambda>x. recordId x = rid) (records st)")
    case None
    then show ?thesis using that(1) nf by (simp add: decryptRecord_not_found)
  next
    case (Some rec)
    show ?thesis
    proof (cases "hasConsent st (r_patientId rec) r")
      case False
      then show ?thesis using that(1) decryptRecord_denied [OF r Some] by blast
    next
      case True
      show ?thesis
      proof (cases "UPLOADS st (filename rec)")
        case None
        then show ?thesis
          using that(1) decryptRecord_storage_missing [OF r Some True] by blast
      next
        case (Some f)
        note blob = this
        show ?thesis
        proof (cases f)
          case (Raw raw)
          then show ?thesis
            using that(1) blob decryptRecord_not_json [OF r \<open>find _ _ = Some rec\<close> True]
            by blast
        next
          case (Enc_json enc)
          show ?thesis
          proof (cases "decryptBuffer C (ENC_KEY st) (enc_data enc) (enc_iv enc)")
            case None
            then show ?thesis
              using that(1) blob Enc_json
                decryptRecord_cipher_throws [OF r \<open>find _ _ = Some rec\<close> True]
              by blast
          next
            case (Some plain)
            then show ?thesis
              using that(2) [OF r \<open>find _ _ = Some rec\<close> True] blob Enc_json by blast
          qed
        qed
      qed
    qed
  qed
qed

subsection \<open>Audit trail and ledger\<close>

lemma audit_frame [simp]:
  "audit (st\<lparr>UPLOADS := up\<rparr>) = audit st"
  by simp

lemma grantConsent_logged:
  assumes "grantConsent st b d = (st', Inr (tx, t))"
  shows "tx = newTxId (tx_rand d) \<and> logged_once st st' tx"
proof (cases b rule: body_cases)
  case 1
  then show ?thesis using assms by (simp add: grantConsent_invalid)
next
  case (2 p r)
  show ?thesis
    using assms unfolding grantConsent_valid [OF 2]
    by (auto intro!: logged_onceI)
qed

lemma revokeConsent_logged:
  assumes "revokeConsent st b d = (st', Inr (tx, t))"
  shows "tx = newTxId (tx_rand d) \<and> logged_once st st' tx"
proof (cases b rule: body_cases)
  case 1
  then show ?thesis using assms by (simp add: revokeConsent_invalid)
next
  case (2 p r)
  show ?thesis
    using assms unfolding revokeConsent_valid [OF 2]
    by (auto intro!: logged_onceI)
qed

lemma addRecord_logged:
  assumes "addRecord C st req d = (st', Inr (rec, tx))"
  shows "tx = newTxId (tx_rand d) \<and> logged_once st st' tx"
proof -
  from assms obtain p r fn buf enc where v:
    "ar_patientId req = Some p" "ar_providerId req = Some r" "p \<noteq> []" "r \<noteq> []"
    "ar_file req = Some (fn, buf)" "hasConsent st p r"
    "encryptBuffer C (ENC_KEY st) (iv_rand d) buf = Some enc"
    by (rule addRecord_InrD)
  show ?thesis
    using assms unfolding addRecord_valid [OF v]
    by (auto intro!: logged_onceI)
qed

lemma listRecords_logged:
  assumes "listRecords st p r d = (st', Inr (recs, tx))"
  shows "tx = newTxId (tx_rand d) \<and> logged_once st st' tx"
proof (cases "hasConsent st p r")
  case False
  then show ?thesis using assms by (simp add: listRecords_denied)
next
  case True
  show ?thesis
    using assms unfolding listRecords_valid [OF True]
    by (auto intro!: logged_onceI)
qed

lemma decryptRecord_logged:
  assumes "decryptRecord C st rid prov d = (st', Inr plain)"
  shows "logged_once st st' (newTxId (tx_rand d))"
proof (cases rule: decryptRecord_cases [where C = C and st = st and rid = rid and prov = prov and d = d])
  case (1 e)
  then show ?thesis using assms by simp
next
  case (2 r rec enc plain')
  show ?thesis
    using assms unfolding decryptRecord_valid [OF 2]
    by (auto intro!: logged_onceI)
qed

lemma decryptRecord_failure:
  assumes "decryptRecord C st rid prov d = (st', Inl e)"
  shows "st' = st"
proof (cases rule: decryptRecord_cases [where C = C and st = st and rid = rid and prov = prov and d = d])
  case (1 e')
  then show ?thesis using assms by simp
next
  case (2 r rec enc plain)
  show ?thesis
    using assms unfolding decryptRecord_valid [OF 2] by simp
qed

lemma logged_once_ledger:
  "logged_once st st' tx \<Longrightarrow> \<exists>l. readLedger st' = readLedger st @ [l]"
  unfolding logged_once_def by blast

lemma ledger_grantConsent:
  "\<exists>ls. readLedger (fst (grantConsent st b d)) = readLedger st @ ls \<and> length ls \<le> Suc 0"
proof (cases "grantConsent st b d")
  case (Pair st' res)
  show ?thesis
  proof (cases res)
    case (Inl e)
    then have "st' = st"
      using Pair by (cases b rule: body_cases) (simp_all add: grantConsent_invalid grantConsent_valid)
    then show ?thesis using Pair by simp
  next
    case (Inr v)
    then obtain tx t where "grantConsent st b d = (st', Inr (tx, t))"
      using Pair by (cases v) simp
    from grantConsent_logged [OF this] obtain l where "readLedger st' = readLedger st @ [l]"
      using logged_once_ledger by blast
    then show ?thesis using Pair by simp
  qed
qed

lemma ledger_revokeConsent:
  "\<exists>ls. readLedger (fst (revokeConsent st b d)) = readLedger st @ ls \<and> length ls \<le> Suc 0"
proof (cases "revokeConsent st b d")
  case (Pair st' res)
  show ?thesis
  proof (cases res)
    case (Inl e)
    then have "st' = st"
      using Pair by (cases b rule: body_cases) (simp_all add: revokeConsent_invalid revokeConsent_valid)
    then show ?thesis using Pair by simp
  next
    case (Inr v)
    then obtain tx t where "revokeConsent st b d = (st', Inr (tx, t))"
      using Pair by (cases v) simp
    from revokeConsent_logged [OF this] obtain l where "readLedger st' = readLedger st @ [l]"
      using logged_once_ledger by blast
    then show ?thesis using Pair by simp
  qed
qed

lemma addRecord_failure:
  assumes "addRecord C st req d = (st', Inl e)"
  shows "consents st' = consents st \<and> records st' = records st \<and> audit st' = audit st \<and>
         LEDGER_FILE st' = LEDGER_FILE st \<and> ENC_KEY st' = ENC_KEY st"
proof (cases req rule: upload_cases)
  case 1
  then show ?thesis using assms by (auto simp: addRecord_invalid)
next
  case (2 p r)
  then show ?thesis using assms by (simp add: addRecord_no_file [OF 2])
next
  case (3 p r fn buf)
  show ?thesis
  proof (cases "hasConsent st p r")
    case False
    then show ?thesis using assms by (auto simp: addRecord_denied [OF 3])
  next
    case True
    show ?thesis
    proof (cases "encryptBuffer C (ENC_KEY st) (iv_rand d) buf")
      case None
      then show ?thesis using assms by (auto simp: addRecord_cipher_throws [OF 3 True])
    next
      case (Some enc)
      then show ?thesis using assms by (simp add: addRecord_valid [OF 3 True])
    qed
  qed
qed

lemma readLedger_cong: "LEDGER_FILE st' = LEDGER_FILE st \<Longrightarrow> readLedger st' = readLedger st"
  by (simp add: readLedger_def)

lemma ledger_addRecord:
  "\<exists>ls. readLedger (fst (addRecord C st req d)) = readLedger st @ ls \<and> length ls \<le> Suc 0"
proof (cases "addRecord C st req d")
  case (Pair st' res)
  show ?thesis
  proof (cases res)
    case (Inl e)
    then have "readLedger st' = readLedger st"
      using Pair addRecord_failure readLedger_cong by blast
    then show ?thesis using Pair by simp
  next
    case (Inr v)
    then obtain rec tx where "addRecord C st req d = (st', Inr (rec, tx))"
      using Pair by (cases v) simp
    from addRecord_logged [OF this] obtain l where "readLedger st' = readLedger st @ [l]"
      using logged_once_ledger by blast
    then show ?thesis using Pair by simp
  qed
qed

lemma ledger_listRecords:
  "\<exists>ls. readLedger (fst (listRecords st p r d)) = readLedger st @ ls \<and> length ls \<le> Suc 0"
  by (cases "hasConsent st p r") (simp_all add: listRecords_denied listRecords_valid)

lemma ledger_decryptRecord:
  "\<exists>ls. readLedger (fst (decryptRecord C st rid prov d)) = readLedger st @ ls \<and> length ls \<le> Suc 0"
proof (cases rule: decryptRecord_cases [where C = C and st = st and rid = rid and prov = prov and d = d])
  case (1 e)
  then show ?thesis by simp
next
  case (2 r rec enc plain)
  show ?thesis unfolding decryptRecord_valid [OF 2] by simp
qed

lemma ledger_step:
  "\<exists>ls. readLedger (step C st x) = readLedger st @ ls \<and> length ls \<le> Suc 0"
proof (cases x)
  case (Pair req d)
  show ?thesis
    by (cases req)
      (simp_all add: Pair ledger_grantConsent ledger_revokeConsent ledger_addRecord
        ledger_listRecords ledger_decryptRecord)
qed

lemma ledger_run:
  "\<exists>ls. readLedger (run C st rs) = readLedger st @ ls \<and> length ls \<le> length rs"
proof (induction rs arbitrary: st)
  case Nil
  show ?case by simp
next
  case (Cons x xs)
  obtain l1 where l1: "readLedger (step C st x) = readLedger st @ l1" "length l1 \<le> Suc 0"
    using ledger_step by blast
  obtain l2 where l2: "readLedger (run C (step C st x) xs) = readLedger (step C st x) @ l2"
    "length l2 \<le> length xs"
    using Cons.IH by blast
  have "readLedger (run C st (x # xs)) = readLedger st @ (l1 @ l2)"
    using l1 l2 by simp
  moreover have "length (l1 @ l2) \<le> length (x # xs)"
    using l1 l2 by simp
  ultimately show ?case by blast
qed

lemma ledger_appends:
  "readLedger (foldl (\<lambda>s (e, t). addToLedger s e t) st es) =
     readLedger st @ map (\<lambda>(e, t). AList.update ''timestamp'' t e) es"
  by (induction es arbitrary: st) (simp_all add: split_def)

subsection \<open>Record store\<close>

lemma records_grantConsent [simp]: "records (fst (grantConsent st b d)) = records st"
  by (cases b rule: body_cases) (simp_all add: grantConsent_invalid grantConsent_valid)

lemma records_revokeConsent [simp]: "records (fst (revokeConsent st b d)) = records st"
  by (cases b rule: body_cases) (simp_all add: revokeConsent_invalid revokeConsent_valid)

lemma records_listRecords [simp]: "records (fst (listRecords st p r d)) = records st"
  by (cases "hasConsent st p r") (simp_all add: listRecords_denied listRecords_valid)

lemma records_decryptRecord [simp]: "records (fst (decryptRecord C st rid prov d)) = records st"
proof (cases rule: decryptRecord_cases [where C = C and st = st and rid = rid and prov = prov and d = d])
  case (1 e)
  then show ?thesis by simp
next
  case (2 r rec enc plain)
  show ?thesis unfolding decryptRecord_valid [OF 2] by simp
qed

lemma addRecord_success:
  assumes "addRecord C st req d = (st', Inr (rec, tx))"
  obtains p r fn buf enc where
    "ar_patientId req = Some p" "ar_providerId req = Some r" "p \<noteq> []" "r \<noteq> []"
    "ar_file req = Some (fn, buf)" "hasConsent st p r"
    "encryptBuffer C (ENC_KEY st) (iv_rand d) buf = Some enc"
    "rec = new_record p r fn enc d" "tx = newTxId (tx_rand d)"
    "records st' = records st @ [rec]" "consents st' = consents st"
    "ENC_KEY st' = ENC_KEY st" "UPLOADS st' (filename rec) = Some (Enc_json enc)"
proof -
  from assms obtain p r fn buf enc where v:
    "ar_patientId req = Some p" "ar_providerId req = Some r" "p \<noteq> []" "r \<noteq> []"
    "ar_file req = Some (fn, buf)" "hasConsent st p r"
    "encryptBuffer C (ENC_KEY st) (iv_rand d) buf = Some enc"
    by (rule addRecord_InrD)
  have "rec = new_record p r fn enc d" "tx = newTxId (tx_rand d)"
    "records st' = records st @ [rec]" "consents st' = consents st"
    "ENC_KEY st' = ENC_KEY st" "UPLOADS st' (filename rec) = Some (Enc_json enc)"
    using assms unfolding addRecord_valid [OF v] by (auto simp: new_record_def)
  with v show ?thesis using that by blast
qed





lemma find_fresh:
  "rid \<notin> recordId ` set xs \<Longrightarrow> recordId rec = rid \<Longrightarrow>
   find (\<lambda>x. recordId x = rid) (xs @ [rec]) = Some rec"
  by (induction xs) auto


lemma encrypt_decrypt:
  assumes "cipher_ok C key" "length ivb = 16"
  shows "\<exists>enc. encryptBuffer C key ivb x = Some enc \<and>
           decryptBuffer C key (enc_data enc) (enc_iv enc) = Some x"
proof -
  from assms have "case aes_encrypt C key ivb x of None \<Rightarrow> False
      | Some enc \<Rightarrow> aes_decrypt C key ivb enc = Some x"
    unfolding cipher_ok_def by blast
  then obtain c where c: "aes_encrypt C key ivb x = Some c" "aes_decrypt C key ivb c = Some x"
    by (cases "aes_encrypt C key ivb x") simp_all
  then show ?thesis
    by (simp add: encryptBuffer_def decryptBuffer_def Buffer_from_toString_hex)
qed


lemma frame_grantConsent [simp]:
  "ENC_KEY (fst (grantConsent st b d)) = ENC_KEY st"
  "UPLOADS (fst (grantConsent st b d)) = UPLOADS st"
  by (cases b rule: body_cases; simp add: grantConsent_invalid grantConsent_valid)+

lemma frame_revokeConsent [simp]:
  "ENC_KEY (fst (revokeConsent st b d)) = ENC_KEY st"
  "UPLOADS (fst (revokeConsent st b d)) = UPLOADS st"
  by (cases b rule: body_cases; simp add: revokeConsent_invalid revokeConsent_valid)+

lemma ENC_KEY_addRecord [simp]: "ENC_KEY (fst (addRecord C st req d)) = ENC_KEY st"
proof (cases "addRecord C st req d")
  case (Pair st' res)
  show ?thesis
  proof (cases res)
    case (Inl e)
    then show ?thesis using Pair addRecord_failure by fastforce
  next
    case (Inr v)
    then obtain rec tx where "addRecord C st req d = (st', Inr (rec, tx))"
      using Pair by (cases v) simp
    then have "ENC_KEY st' = ENC_KEY st"
      by (rule addRecord_success)
    then show ?thesis using Pair by simp
  qed
qed

lemma ENC_KEY_listRecords [simp]: "ENC_KEY (fst (listRecords st p r d)) = ENC_KEY st"
  by (cases "hasConsent st p r") (simp_all add: listRecords_denied listRecords_valid)

lemma ENC_KEY_decryptRecord [simp]:
  "ENC_KEY (fst (decryptRecord C st rid prov d)) = ENC_KEY st"
proof (cases rule: decryptRecord_cases [where C = C and st = st and rid = rid and prov = prov and d = d])
  case (1 e)
  then show ?thesis by simp
next
  case (2 r rec enc plain)
  show ?thesis unfolding decryptRecord_valid [OF 2] by simp
qed

lemma ENC_KEY_step [simp]: "ENC_KEY (step C st x) = ENC_KEY st"
proof (cases x)
  case (Pair req d)
  show ?thesis by (cases req) (simp_all add: Pair)
qed

lemma ENC_KEY_run [simp]: "ENC_KEY (run C st rs) = ENC_KEY st"
  by (induction rs arbitrary: st) simp_all

lemma new_records_are_logged:
  assumes "records (step C st x) \<noteq> records st"
  shows "readLedger (step C st x) \<noteq> []"
proof (cases x)
  case (Pair req d)
  show ?thesis
  proof (cases req)
    case (AddRecord up)
    show ?thesis
    proof (cases "addRecord C st up d")
      case ar: (Pair st' res)
      show ?thesis
      proof (cases res)
        case (Inl e)
        then have "records st' = records st"
          using ar addRecord_failure by blast
        then show ?thesis using assms Pair AddRecord ar by simp
      next
        case (Inr v)
        then obtain rec tx where "addRecord C st up d = (st', Inr (rec, tx))"
          using ar by (cases v) simp
        from addRecord_logged [OF this] obtain l where "readLedger st' = readLedger st @ [l]"
          using logged_once_ledger by blast
        then show ?thesis using Pair AddRecord ar by simp
      qed
    qed
  qed (use assms Pair in simp_all)
qed

lemma records_imply_ledger_step:
  assumes "records st = [] \<or> readLedger st \<noteq> []"
  shows "records (step C st x) = [] \<or> readLedger (step C st x) \<noteq> []"
proof (cases "records (step C st x) = records st")
  case True
  obtain ls where "readLedger (step C st x) = readLedger st @ ls"
    using ledger_step by blast
  then show ?thesis using assms True by auto
next
  case False
  then show ?thesis using new_records_are_logged by blast
qed

lemma records_imply_ledger_run:
  "records st = [] \<or> readLedger st \<noteq> [] \<Longrightarrow>
   records (run C st rs) = [] \<or> readLedger (run C st rs) \<noteq> []"
proof (induction rs arbitrary: st)
  case Nil
  then show ?case by simp
next
  case (Cons x xs)
  show ?case
    using Cons.IH [OF records_imply_ledger_step [OF Cons.prems]] by simp
qed

lemma empty_ledger_no_records:
  "readLedger (run C (startup key lf up) rs) = [] \<Longrightarrow> records (run C (startup key lf up) rs) = []"
  using records_imply_ledger_run [of "startup key lf up" C rs]
  by (auto simp: startup_def)

lemma scenario_from_unused_state:
  assumes "\<forall>r. \<not> hasConsent st ''pat-1'' r" and "readLedger st = []" and "records st = []"
    and "cipher_ok C (ENC_KEY st)" and "length (iv_rand d3) = 16"
  shows "\<exists>st1 st2 tx1 t1 st3 R1 tx3 st4 st5 tx2 t2.
     addRecord C st
       \<lparr>ar_patientId = Some ''pat-1'', ar_providerId = Some ''doc-1'',
         ar_file = Some (fn0, bytes0)\<rparr> d1 = (st1, Inl AccessDenied) \<and>
     grantConsent st1 pat1_doc1 d2 = (st2, Inr (tx1, t1)) \<and>
     hasConsent st2 ''pat-1'' ''doc-1'' \<and>
     addRecord C st2
       \<lparr>ar_patientId = Some ''pat-1'', ar_providerId = Some ''doc-1'',
         ar_file = Some (fn, [0x68, 0x65, 0x6c, 0x6c, 0x6f])\<rparr> d3 = (st3, Inr (R1, tx3)) \<and>
     decryptRecord C st3 (recordId R1) (Some ''doc-1'') d4
       = (st4, Inr [0x68, 0x65, 0x6c, 0x6c, 0x6f]) \<and>
     revokeConsent st4 pat1_doc1 d5 = (st5, Inr (tx2, t2)) \<and>
     decryptRecord C st5 (recordId R1) (Some ''doc-1'') d6 = (st5, Inl AccessDenied) \<and>
     map (\<lambda>l. (map_of l ''type'', map_of l ''tx'')) (readLedger st5) =
       [(Some ''CONSENT_GRANTED'', Some tx1), (Some ''RECORD_ADDED'', Some tx3),
        (Some ''DOWNLOAD_DECRYPT'', Some (newTxId (tx_rand d4))),
        (Some ''CONSENT_REVOKED'', Some tx2)]"
proof -
  let ?first = "\<lparr>ar_patientId = Some ''pat-1'', ar_providerId = Some ''doc-1'',
                ar_file = Some (fn0, bytes0)\<rparr>"
  let ?second = "\<lparr>ar_patientId = Some ''pat-1'', ar_providerId = Some ''doc-1'',
               ar_file = Some (fn, [0x68, 0x65, 0x6c, 0x6c, 0x6f])\<rparr>"
  have b: "patientId pat1_doc1 = Some ''pat-1''" "providerId pat1_doc1 = Some ''doc-1''"
    "''pat-1'' \<noteq> []" "''doc-1'' \<noteq> []"
    by (simp_all add: pat1_doc1_def)
  \<comment> \<open>the first upload\<close>
  define st1 where "st1 = st\<lparr>UPLOADS := (UPLOADS st)(fn0 := None)\<rparr>"
  have s1: "addRecord C st ?first d1 = (st1, Inl AccessDenied)"
    using assms(1) unfolding st1_def
    by (simp add: addRecord_denied [where p = "''pat-1''" and r = "''doc-1''" and fn = fn0
          and buf = bytes0])
  have st1: "readLedger st1 = []" "records st1 = []" "ENC_KEY st1 = ENC_KEY st"
    using assms by (simp_all add: st1_def)
  \<comment> \<open>the grant\<close>
  define st2 where "st2 = fst (grantConsent st1 pat1_doc1 d2)"
  have s2: "grantConsent st1 pat1_doc1 d2 = (st2, Inr (newTxId (tx_rand d2), nowIso d2 3))"
    by (simp add: st2_def grantConsent_valid [OF b])
  have c2: "hasConsent st2 ''pat-1'' ''doc-1''"
    by (simp add: st2_def hasConsent_grantConsent [OF b])
  have l2: "map (\<lambda>l. (map_of l ''type'', map_of l ''tx'')) (readLedger st2) =
      [(Some ''CONSENT_GRANTED'', Some (newTxId (tx_rand d2)))]"
    by (simp add: st2_def grantConsent_valid [OF b] st1)
  have st2: "records st2 = []" "ENC_KEY st2 = ENC_KEY st"
    by (simp_all add: st2_def st1)
  \<comment> \<open>the upload of hello\<close>
  obtain enc where e: "encryptBuffer C (ENC_KEY st2) (iv_rand d3) [0x68, 0x65, 0x6c, 0x6c, 0x6f]
      = Some enc"
    and de: "decryptBuffer C (ENC_KEY st2) (enc_data enc) (enc_iv enc)
      = Some [0x68, 0x65, 0x6c, 0x6c, 0x6f]"
    using assms(4,5) encrypt_decrypt unfolding st2(2) by blast
  define R1 where "R1 = new_record ''pat-1'' ''doc-1'' fn enc d3"
  define st3 where "st3 = fst (addRecord C st2 ?second d3)"
  have v: "ar_patientId ?second = Some ''pat-1''" "ar_providerId ?second = Some ''doc-1''"
    "''pat-1'' \<noteq> []" "''doc-1'' \<noteq> []"
    "ar_file ?second = Some (fn, [0x68, 0x65, 0x6c, 0x6c, 0x6f])"
    by simp_all
  note av = addRecord_valid [OF v c2 e]
  have s3: "addRecord C st2 ?second d3 = (st3, Inr (R1, newTxId (tx_rand d3)))"
    by (simp add: st3_def R1_def av)
  have r3: "records st3 = [R1]" and k3: "ENC_KEY st3 = ENC_KEY st2"
    and u3: "UPLOADS st3 (filename R1) = Some (Enc_json enc)"
    and cs3: "consents st3 = consents st2"
    using s3 st2(1) e by (auto elim!: addRecord_success)
  have l3: "readLedger st3 = readLedger st2 @ [last (readLedger st3)]"
    "map_of (last (readLedger st3)) ''tx'' = Some (newTxId (tx_rand d3))"
    using addRecord_logged [OF s3] by (simp_all add: logged_once_def)
  have t3: "map_of (last (readLedger st3)) ''type'' = Some ''RECORD_ADDED''"
    by (simp add: st3_def av)
  have c3: "hasConsent st3 (r_patientId R1) ''doc-1''"
    using c2 by (simp add: hasConsent_cong [OF cs3] R1_def new_record_def)
  have f3: "find (\<lambda>x. recordId x = recordId R1) (records st3) = Some R1"
    by (simp add: r3)
  \<comment> \<open>the first decryption\<close>
  define st4 where "st4 = fst (decryptRecord C st3 (recordId R1) (Some ''doc-1'') d4)"
  have de3: "decryptBuffer C (ENC_KEY st3) (enc_data enc) (enc_iv enc)
      = Some [0x68, 0x65, 0x6c, 0x6c, 0x6f]"
    using de k3 by simp
  note dv = decryptRecord_valid [OF refl b(4) f3 c3 u3 de3]
  have s4: "decryptRecord C st3 (recordId R1) (Some ''doc-1'') d4
      = (st4, Inr [0x68, 0x65, 0x6c, 0x6c, 0x6f])"
    by (simp add: st4_def dv)
  have st4: "records st4 = [R1]" "consents st4 = consents st3"
    by (simp_all add: st4_def r3)
  have l4: "map (\<lambda>l. (map_of l ''type'', map_of l ''tx'')) (readLedger st4) =
      map (\<lambda>l. (map_of l ''type'', map_of l ''tx'')) (readLedger st3) @
        [(Some ''DOWNLOAD_DECRYPT'', Some (newTxId (tx_rand d4)))]"
    by (simp add: st4_def dv)
  \<comment> \<open>the revoke\<close>
  define st5 where "st5 = fst (revokeConsent st4 pat1_doc1 d5)"
  have s5: "revokeConsent st4 pat1_doc1 d5 = (st5, Inr (newTxId (tx_rand d5), nowIso d5 3))"
    by (simp add: st5_def revokeConsent_valid [OF b])
  have c5: "\<not> hasConsent st5 (r_patientId R1) ''doc-1''"
    by (simp add: st5_def hasConsent_revokeConsent [OF b] R1_def new_record_def)
  have f5: "find (\<lambda>x. recordId x = recordId R1) (records st5) = Some R1"
    by (simp add: st5_def st4)
  have l5: "map (\<lambda>l. (map_of l ''type'', map_of l ''tx'')) (readLedger st5) =
      map (\<lambda>l. (map_of l ''type'', map_of l ''tx'')) (readLedger st4) @
        [(Some ''CONSENT_REVOKED'', Some (newTxId (tx_rand d5)))]"
    by (simp add: st5_def revokeConsent_valid [OF b])
  \<comment> \<open>the second decryption\<close>
  have s6: "decryptRecord C st5 (recordId R1) (Some ''doc-1'') d6 = (st5, Inl AccessDenied)"
    using decryptRecord_denied [OF refl b(4) f5 c5] .
  have l3': "map (\<lambda>l. (map_of l ''type'', map_of l ''tx'')) (readLedger st3) =
      map (\<lambda>l. (map_of l ''type'', map_of l ''tx'')) (readLedger st2) @
        [(Some ''RECORD_ADDED'', Some (newTxId (tx_rand d3)))]"
    by (subst l3(1)) (simp add: l3(2) t3)
  have ledger: "map (\<lambda>l. (map_of l ''type'', map_of l ''tx'')) (readLedger st5) =
       [(Some ''CONSENT_GRANTED'', Some (newTxId (tx_rand d2))),
        (Some ''RECORD_ADDED'', Some (newTxId (tx_rand d3))),
        (Some ''DOWNLOAD_DECRYPT'', Some (newTxId (tx_rand d4))),
        (Some ''CONSENT_REVOKED'', Some (newTxId (tx_rand d5)))]"
    by (simp add: l5 l4 l3' l2)
  show ?thesis
    by (intro exI conjI, rule s1, rule s2, rule c2, rule s3, rule s4, rule s5, rule s6,
        rule ledger)
qed

lemma addRecord_resolves:
  assumes "addRecord C st req d = (st', Inr (rec, tx))"
    and "recordId rec \<notin> recordId ` set (records st)"
  shows "find (\<lambda>x. recordId x = recordId rec) (records st') = Some rec"
proof -
  from assms(1) have "records st' = records st @ [rec]"
    by (rule addRecord_success)
  then show ?thesis
    using assms(2) by (simp add: find_fresh)
qed

subsection \<open>The concrete states\<close>

lemma cipher_ok_shift: "cipher_ok shift_cipher key"
  by (simp add: cipher_ok_def shift_cipher_def comp_def)

lemma demo_grant:
  "grantConsent demo_state pat1_doc1 (demo_draws 1) =
     (granted_state, Inr (newTxId (tx_rand (demo_draws 1)), nowIso (demo_draws 1) 3))"
  by (simp add: granted_state_def prod_eq_iff pat1_doc1_def grantConsent_valid)

lemma hasConsent_granted_state: "hasConsent granted_state ''pat-1'' ''doc-1''"
  by (simp add: granted_state_def pat1_doc1_def hasConsent_grantConsent)

lemma encrypt_hello:
  "encryptBuffer shift_cipher key (iv_rand (demo_draws 2)) [0x68, 0x65, 0x6c, 0x6c, 0x6f]
     = Some hello_enc"
  by (simp add: encryptBuffer_def shift_cipher_def hello_enc_def)

lemma demo_add:
  "addRecord shift_cipher granted_state upload_hello (demo_draws 2) =
     (stored_state, Inr (hello_record, newTxId (tx_rand (demo_draws 2))))"
proof -
  have v: "ar_patientId upload_hello = Some ''pat-1''" "ar_providerId upload_hello = Some ''doc-1''"
    "''pat-1'' \<noteq> []" "''doc-1'' \<noteq> []"
    "ar_file upload_hello = Some (''5b1e46a09c3d'', [0x68, 0x65, 0x6c, 0x6c, 0x6f])"
    by (simp_all add: upload_hello_def)
  show ?thesis
    unfolding stored_state_def
    by (simp add: addRecord_valid [OF v hasConsent_granted_state encrypt_hello] hello_record_def)
qed

lemma stored_state_components:
  "records stored_state = [hello_record]"
  "consents stored_state = consents granted_state"
  "UPLOADS stored_state ''5b1e46a09c3d.enc'' = Some (Enc_json hello_enc)"
  "ENC_KEY stored_state = demo_key"
proof -
  have v: "ar_patientId upload_hello = Some ''pat-1''" "ar_providerId upload_hello = Some ''doc-1''"
    "''pat-1'' \<noteq> []" "''doc-1'' \<noteq> []"
    "ar_file upload_hello = Some (''5b1e46a09c3d'', [0x68, 0x65, 0x6c, 0x6c, 0x6f])"
    by (simp_all add: upload_hello_def)
  have g: "records granted_state = []" "ENC_KEY granted_state = demo_key"
    by (simp_all add: granted_state_def pat1_doc1_def grantConsent_valid demo_state_def startup_def)
  show "records stored_state = [hello_record]"
    "consents stored_state = consents granted_state"
    "UPLOADS stored_state ''5b1e46a09c3d.enc'' = Some (Enc_json hello_enc)"
    "ENC_KEY stored_state = demo_key"
    unfolding stored_state_def
    by (simp_all add: addRecord_valid [OF v hasConsent_granted_state encrypt_hello]
        hello_record_def g)
qed

lemma hasConsent_stored_state: "hasConsent stored_state ''pat-1'' ''doc-1''"
  using hasConsent_granted_state
  by (simp add: hasConsent_cong [OF stored_state_components(2)])

lemma find_hello:
  "find (\<lambda>x. recordId x = recordId hello_record) (records stored_state) = Some hello_record"
  by (simp add: stored_state_components)

lemma decrypt_hello:
  "decryptBuffer shift_cipher key (enc_data hello_enc) (enc_iv hello_enc)
     = Some [0x68, 0x65, 0x6c, 0x6c, 0x6f]"
  by (simp add: decryptBuffer_def hello_enc_def Buffer_from_toString_hex shift_cipher_def)

lemma demo_revoke:
  "revokeConsent stored_state pat1_doc1 (demo_draws 5) =
     (fst (revokeConsent stored_state pat1_doc1 (demo_draws 5)),
      Inr (newTxId (tx_rand (demo_draws 5)), nowIso (demo_draws 5) 3))"
  by (simp add: prod_eq_iff pat1_doc1_def revokeConsent_valid)

lemma demo_list:
  "listRecords stored_state ''pat-1'' ''doc-1'' (demo_draws 3) =
     (fst (listRecords stored_state ''pat-1'' ''doc-1'' (demo_draws 3)),
      Inr ([view hello_record], newTxId (tx_rand (demo_draws 3))))"
  by (simp add: prod_eq_iff listRecords_valid [OF hasConsent_stored_state]
      stored_state_components hello_record_def new_record_def)

lemma demo_decrypt:
  "decryptRecord shift_cipher stored_state (recordId hello_record) (Some ''doc-1'') (demo_draws 4) =
     (fst (decryptRecord shift_cipher stored_state (recordId hello_record) (Some ''doc-1'')
             (demo_draws 4)),
      Inr [0x68, 0x65, 0x6c, 0x6c, 0x6f])"
proof -
  have c: "hasConsent stored_state (r_patientId hello_record) ''doc-1''"
    using hasConsent_stored_state by (simp add: hello_record_def new_record_def)
  have u: "UPLOADS stored_state (filename hello_record) = Some (Enc_json hello_enc)"
    using stored_state_components(3) by (simp add: hello_record_def new_record_def)
  have k: "decryptBuffer shift_cipher (ENC_KEY stored_state) (enc_data hello_enc) (enc_iv hello_enc)
     = Some [0x68, 0x65, 0x6c, 0x6c, 0x6f]"
    by (rule decrypt_hello)
  show ?thesis
    by (simp add: decryptRecord_valid [OF refl _ find_hello c u k])
qed

lemma unused_hello:
  "recordId hello_record \<notin> recordId ` set (records granted_state)"
  by (simp add: granted_state_def demo_state_def startup_def)

section \<open>The claims\<close>

text \<open>
  Claim C1. For identifiers \<open>p\<close> and \<open>r\<close> that a mutator accepts (both non-empty), the
  consent check is true after \<open>grantConsent\<close> and false after a following
  \<open>revokeConsent\<close>. After any sequence of requests, from any state, the check for
  \<open>(p, r)\<close> is the boolean of the most recent grant or revoke for the pair, and it is what
  it was before when the sequence has none. Right after start-up every check is false, so
  a pair for which no grant or revoke was ever performed is not active.
\<close>

theorem consent_reflects_last_call:
  "(p \<noteq> [] \<and> r \<noteq> [] \<longrightarrow>
      hasConsent (fst (grantConsent st \<lparr>patientId = Some p, providerId = Some r\<rparr> d1)) p r \<and>
      \<not> hasConsent
          (fst (revokeConsent
                  (fst (grantConsent st \<lparr>patientId = Some p, providerId = Some r\<rparr> d1))
                  \<lparr>patientId = Some p, providerId = Some r\<rparr> d2)) p r) \<and>
   hasConsent (run C st rs) p r =
     (case last_mutation p r rs of None \<Rightarrow> hasConsent st p r | Some b \<Rightarrow> b) \<and>
   (last_mutation p r rs = None \<longrightarrow> \<not> hasConsent (run C (startup key lf up) rs) p r)"
proof (intro conjI impI)
  assume ne: "p \<noteq> [] \<and> r \<noteq> []"
  let ?b = "\<lparr>patientId = Some p, providerId = Some r\<rparr>"
  have b: "patientId ?b = Some p" "providerId ?b = Some r" "p \<noteq> []" "r \<noteq> []"
    using ne by simp_all
  show "hasConsent (fst (grantConsent st ?b d1)) p r"
    by (simp add: hasConsent_grantConsent [OF b])
  show "\<not> hasConsent (fst (revokeConsent (fst (grantConsent st ?b d1)) ?b d2)) p r"
    by (simp add: hasConsent_revokeConsent [OF b])
next
  show "hasConsent (run C st rs) p r =
     (case last_mutation p r rs of None \<Rightarrow> hasConsent st p r | Some b \<Rightarrow> b)"
    by (rule hasConsent_run)
next
  assume "last_mutation p r rs = None"
  then show "\<not> hasConsent (run C (startup key lf up) rs) p r"
    by (simp add: hasConsent_run)
qed

theorem consent_reflects_last_call_witness:
  "hasConsent (fst (grantConsent demo_state pat1_doc1 (demo_draws 1))) ''pat-1'' ''doc-1'' \<and>
   \<not> hasConsent
       (fst (revokeConsent (fst (grantConsent demo_state pat1_doc1 (demo_draws 1)))
               pat1_doc1 (demo_draws 2))) ''pat-1'' ''doc-1'' \<and>
   hasConsent
     (run shift_cipher demo_state
        [(GrantConsent pat1_doc1, demo_draws 1), (RevokeConsent pat1_doc1, demo_draws 2),
         (ListRecords ''pat-1'' ''doc-1'', demo_draws 3),
         (GrantConsent pat1_doc1, demo_draws 4)]) ''pat-1'' ''doc-1'' \<and>
   \<not> hasConsent
       (run shift_cipher demo_state
          [(GrantConsent pat1_doc1, demo_draws 1), (ReadLedger, demo_draws 2)])
       ''pat-1'' ''doc-2''"
  using
    consent_reflects_last_call [of "''pat-1''" "''doc-1''" demo_state "demo_draws 1"
      "demo_draws 2" shift_cipher
      "[(GrantConsent pat1_doc1, demo_draws 1), (RevokeConsent pat1_doc1, demo_draws 2),
        (ListRecords ''pat-1'' ''doc-1'', demo_draws 3),
        (GrantConsent pat1_doc1, demo_draws 4)]" demo_key Absent Map.empty]
    consent_reflects_last_call [of "''pat-1''" "''doc-2''" demo_state "demo_draws 1"
      "demo_draws 2" shift_cipher
      "[(GrantConsent pat1_doc1, demo_draws 1), (ReadLedger, demo_draws 2)]"
      demo_key Absent Map.empty]
  by (simp add: pat1_doc1_def demo_state_def)




text \<open>
  Claim C3, as stated, fails in its second part where the identifier of the record just
  added is already carried by an earlier record. The cipher honours its contract, the
  upload of \<open>hello\<close> for \<open>pat-1\<close> succeeds, the consent is active, and
  \<open>decryptRecord\<close> with the identifier of the new record returns the three bytes of the
  record of \<open>pat-2\<close>.
\<close>

theorem fresh_record_claim_counterexample:
  "cipher_ok shift_cipher (ENC_KEY shared_id_state) \<and>
   length (iv_rand redraw) = 16 \<and>
   ar_file upload_hello = Some (''5b1e46a09c3d'', [0x68, 0x65, 0x6c, 0x6c, 0x6f]) \<and>
   isl (snd (addRecord shift_cipher shared_id_state upload_hello redraw)) = False \<and>
   recordId (fst (projr (snd (addRecord shift_cipher shared_id_state upload_hello redraw))))
     = ''0x02814ef025c76a19'' \<and>
   hasConsent twice_state ''pat-1'' ''doc-1'' \<and>
   snd (decryptRecord shift_cipher twice_state ''0x02814ef025c76a19'' (Some ''doc-1'')
          (demo_draws 8))
     = Inr [0x01, 0x02, 0x03]"
proof -
  have "length (iv_rand redraw) = 16"
    "ar_file upload_hello = Some (''5b1e46a09c3d'', [0x68, 0x65, 0x6c, 0x6c, 0x6f])"
    "isl (snd (addRecord shift_cipher shared_id_state upload_hello redraw)) = False"
    "recordId (fst (projr (snd (addRecord shift_cipher shared_id_state upload_hello redraw))))
       = ''0x02814ef025c76a19''"
    "hasConsent twice_state ''pat-1'' ''doc-1''"
    "snd (decryptRecord shift_cipher twice_state ''0x02814ef025c76a19'' (Some ''doc-1'')
            (demo_draws 8))
       = Inr [0x01, 0x02, 0x03]"
    by code_simp+
  then show ?thesis
    using cipher_ok_shift by blast
qed

text \<open>
  Claim C3, amended. With a cipher that honours its contract for the key in use and a
  16-byte initialisation vector, \<open>decryptBuffer\<close> applied to the pair produced by
  \<open>encryptBuffer\<close> gives the plaintext back. Hence \<open>decryptRecord\<close> on a record just
  added with an identifier that no stored record carried, by a provider whose consent for
  the patient is active, returns the uploaded bytes.
\<close>

theorem decrypt_inverts_encrypt:
  "(cipher_ok C key \<and> length ivb = 16 \<longrightarrow>
      (\<exists>enc. encryptBuffer C key ivb x = Some enc \<and>
             decryptBuffer C key (enc_data enc) (enc_iv enc) = Some x)) \<and>
   (cipher_ok C (ENC_KEY st) \<and> length (iv_rand d) = 16 \<and>
    addRecord C st req d = (st1, Inr (rec, tx)) \<and> ar_file req = Some (fn, buf) \<and>
    recordId rec \<notin> recordId ` set (records st) \<and>
    r \<noteq> [] \<and> hasConsent st1 (r_patientId rec) r \<longrightarrow>
      (\<exists>st2. decryptRecord C st1 (recordId rec) (Some r) d' = (st2, Inr buf)))"
proof (intro conjI impI)
  assume "cipher_ok C key \<and> length ivb = 16"
  then show "\<exists>enc. encryptBuffer C key ivb x = Some enc \<and>
             decryptBuffer C key (enc_data enc) (enc_iv enc) = Some x"
    using encrypt_decrypt by blast
next
  assume a: "cipher_ok C (ENC_KEY st) \<and> length (iv_rand d) = 16 \<and>
    addRecord C st req d = (st1, Inr (rec, tx)) \<and> ar_file req = Some (fn, buf) \<and>
    recordId rec \<notin> recordId ` set (records st) \<and>
    r \<noteq> [] \<and> hasConsent st1 (r_patientId rec) r"
  then have add: "addRecord C st req d = (st1, Inr (rec, tx))"
    and unused: "recordId rec \<notin> recordId ` set (records st)"
    and r: "r \<noteq> []" and c: "hasConsent st1 (r_patientId rec) r"
    by simp_all
  have found: "find (\<lambda>x. recordId x = recordId rec) (records st1) = Some rec"
    using add unused by (rule addRecord_resolves)
  from add obtain enc where e: "encryptBuffer C (ENC_KEY st) (iv_rand d) buf = Some enc"
    and k: "ENC_KEY st1 = ENC_KEY st"
    and u: "UPLOADS st1 (filename rec) = Some (Enc_json enc)"
    using a by (auto elim!: addRecord_success)
  obtain enc' where "encryptBuffer C (ENC_KEY st) (iv_rand d) buf = Some enc'"
    "decryptBuffer C (ENC_KEY st) (enc_data enc') (enc_iv enc') = Some buf"
    using a encrypt_decrypt by blast
  then have dec: "decryptBuffer C (ENC_KEY st1) (enc_data enc) (enc_iv enc) = Some buf"
    using e k by simp
  show "\<exists>st2. decryptRecord C st1 (recordId rec) (Some r) d' = (st2, Inr buf)"
    by (simp add: decryptRecord_valid [OF refl r found c u dec])
qed

theorem decrypt_inverts_encrypt_witness:
  "(\<exists>enc. encryptBuffer shift_cipher demo_key (iv_rand (demo_draws 2)) [0x68, 0x65, 0x6c, 0x6c, 0x6f]
            = Some enc \<and>
          decryptBuffer shift_cipher demo_key (enc_data enc) (enc_iv enc)
            = Some [0x68, 0x65, 0x6c, 0x6c, 0x6f]) \<and>
   (\<exists>st2. decryptRecord shift_cipher stored_state (recordId hello_record) (Some ''doc-1'')
            (demo_draws 4) = (st2, Inr [0x68, 0x65, 0x6c, 0x6c, 0x6f]))"
proof -
  have k: "ENC_KEY granted_state = demo_key"
    by (simp add: granted_state_def pat1_doc1_def grantConsent_valid demo_state_def startup_def)
  have l: "length (iv_rand (demo_draws 2)) = 16"
    by (simp add: demo_draws_def)
  have f: "ar_file upload_hello = Some (''5b1e46a09c3d'', [0x68, 0x65, 0x6c, 0x6c, 0x6f])"
    by (simp add: upload_hello_def)
  have c: "hasConsent stored_state (r_patientId hello_record) ''doc-1''"
    using hasConsent_stored_state by (simp add: hello_record_def new_record_def)
  show ?thesis
    using
      decrypt_inverts_encrypt [THEN conjunct1, rule_format,
        of shift_cipher demo_key "iv_rand (demo_draws 2)" "[0x68, 0x65, 0x6c, 0x6c, 0x6f]"]
      decrypt_inverts_encrypt [THEN conjunct2, rule_format,
        of shift_cipher granted_state "demo_draws 2" upload_hello stored_state hello_record
          "newTxId (tx_rand (demo_draws 2))" "''5b1e46a09c3d''" "[0x68, 0x65, 0x6c, 0x6c, 0x6f]"
          "''doc-1''" "demo_draws 4"]
      cipher_ok_shift k l f c demo_add unused_hello
    by simp
qed

text \<open>
  Claim C4. Every successful grant, revoke, upload, listing or decryption appends exactly
  one audit entry and exactly one ledger entry, both carrying the transaction identifier
  generated by that call: \<open>0x\<close> followed by the hexadecimal text of the twelve bytes the
  call drew, so that calls with different draws log different identifiers. The entries are
  in the state the call returns.
\<close>

theorem successful_calls_log_once:
  "(grantConsent st b d = (st', Inr (tx, t)) \<longrightarrow>
      tx = newTxId (tx_rand d) \<and> tx = ''0x'' @ toString_hex (tx_rand d) \<and>
      logged_once st st' tx) \<and>
   (revokeConsent st b d = (st', Inr (tx, t)) \<longrightarrow>
      tx = newTxId (tx_rand d) \<and> tx = ''0x'' @ toString_hex (tx_rand d) \<and>
      logged_once st st' tx) \<and>
   (addRecord C st req d = (st', Inr (rec, tx)) \<longrightarrow>
      tx = newTxId (tx_rand d) \<and> tx = ''0x'' @ toString_hex (tx_rand d) \<and>
      logged_once st st' tx) \<and>
   (listRecords st p r d = (st', Inr (recs, tx)) \<longrightarrow>
      tx = newTxId (tx_rand d) \<and> tx = ''0x'' @ toString_hex (tx_rand d) \<and>
      logged_once st st' tx) \<and>
   (decryptRecord C st rid prov d = (st', Inr plain) \<longrightarrow>
      logged_once st st' (newTxId (tx_rand d)) \<and>
      logged_once st st' (''0x'' @ toString_hex (tx_rand d))) \<and>
   (newTxId rnd1 = newTxId rnd2 \<longleftrightarrow> rnd1 = rnd2)"
proof (intro conjI impI)
  assume "grantConsent st b d = (st', Inr (tx, t))"
  from grantConsent_logged [OF this]
  have 1: "tx = newTxId (tx_rand d)" and 2: "logged_once st st' tx" by blast+
  show "tx = newTxId (tx_rand d)" by (rule 1)
  show "tx = ''0x'' @ toString_hex (tx_rand d)" using 1 by (simp add: newTxId_def)
  show "logged_once st st' tx" by (rule 2)
next
  assume "revokeConsent st b d = (st', Inr (tx, t))"
  from revokeConsent_logged [OF this]
  have 1: "tx = newTxId (tx_rand d)" and 2: "logged_once st st' tx" by blast+
  show "tx = newTxId (tx_rand d)" by (rule 1)
  show "tx = ''0x'' @ toString_hex (tx_rand d)" using 1 by (simp add: newTxId_def)
  show "logged_once st st' tx" by (rule 2)
next
  assume "addRecord C st req d = (st', Inr (rec, tx))"
  from addRecord_logged [OF this]
  have 1: "tx = newTxId (tx_rand d)" and 2: "logged_once st st' tx" by blast+
  show "tx = newTxId (tx_rand d)" by (rule 1)
  show "tx = ''0x'' @ toString_hex (tx_rand d)" using 1 by (simp add: newTxId_def)
  show "logged_once st st' tx" by (rule 2)
next
  assume "listRecords st p r d = (st', Inr (recs, tx))"
  from listRecords_logged [OF this]
  have 1: "tx = newTxId (tx_rand d)" and 2: "logged_once st st' tx" by blast+
  show "tx = newTxId (tx_rand d)" by (rule 1)
  show "tx = ''0x'' @ toString_hex (tx_rand d)" using 1 by (simp add: newTxId_def)
  show "logged_once st st' tx" by (rule 2)
next
  assume "decryptRecord C st rid prov d = (st', Inr plain)"
  then have 1: "logged_once st st' (newTxId (tx_rand d))" by (rule decryptRecord_logged)
  show "logged_once st st' (newTxId (tx_rand d))" by (rule 1)
  show "logged_once st st' (''0x'' @ toString_hex (tx_rand d))"
    using 1 by (simp add: newTxId_def)
next
  show "newTxId rnd1 = newTxId rnd2 \<longleftrightarrow> rnd1 = rnd2"
    by (simp add: newTxId_def toString_hex_inject)
qed

theorem successful_calls_log_once_witness:
  "logged_once demo_state granted_state ''0x013ca107ee529b10d4682fb3'' \<and>
   logged_once stored_state (fst (revokeConsent stored_state pat1_doc1 (demo_draws 5)))
     ''0x053ca107ee529b10d4682fb3'' \<and>
   logged_once granted_state stored_state ''0x023ca107ee529b10d4682fb3'' \<and>
   logged_once stored_state (fst (listRecords stored_state ''pat-1'' ''doc-1'' (demo_draws 3)))
     ''0x033ca107ee529b10d4682fb3'' \<and>
   logged_once stored_state
     (fst (decryptRecord shift_cipher stored_state (recordId hello_record) (Some ''doc-1'')
             (demo_draws 4)))
     ''0x043ca107ee529b10d4682fb3'' \<and>
   newTxId (tx_rand (demo_draws 1)) \<noteq> newTxId (tx_rand (demo_draws 2))"
proof (intro conjI)
  note c4 = successful_calls_log_once
  have h: "toString_hex (tx_rand (demo_draws n)) = hex_byte n @ ''3ca107ee529b10d4682fb3''" for n
    by (simp add: demo_draws_def toString_hex_def hex_byte_def hex_digit_def)
  have b: "hex_byte 1 = ''01''" "hex_byte 2 = ''02''" "hex_byte 3 = ''03''" "hex_byte 4 = ''04''"
    "hex_byte 5 = ''05''"
    by (simp_all add: hex_byte_def hex_digit_def)
  show "logged_once demo_state granted_state ''0x013ca107ee529b10d4682fb3''"
    using c4 [THEN conjunct1, rule_format, OF demo_grant] by (auto simp: h b)
  show "logged_once stored_state (fst (revokeConsent stored_state pat1_doc1 (demo_draws 5)))
     ''0x053ca107ee529b10d4682fb3''"
    using c4 [THEN conjunct2, THEN conjunct1, rule_format, OF demo_revoke] by (auto simp: h b)
  show "logged_once granted_state stored_state ''0x023ca107ee529b10d4682fb3''"
    using c4 [THEN conjunct2, THEN conjunct2, THEN conjunct1, rule_format, OF demo_add]
    by (auto simp: h b)
  show "logged_once stored_state
     (fst (listRecords stored_state ''pat-1'' ''doc-1'' (demo_draws 3)))
     ''0x033ca107ee529b10d4682fb3''"
    using c4 [THEN conjunct2, THEN conjunct2, THEN conjunct2, THEN conjunct1, rule_format,
        OF demo_list]
    by (auto simp: h b)
  show "logged_once stored_state
     (fst (decryptRecord shift_cipher stored_state (recordId hello_record) (Some ''doc-1'')
             (demo_draws 4)))
     ''0x043ca107ee529b10d4682fb3''"
    using c4 [THEN conjunct2, THEN conjunct2, THEN conjunct2, THEN conjunct2, THEN conjunct1,
        rule_format, OF demo_decrypt]
    by (auto simp: h b)
  show "newTxId (tx_rand (demo_draws 1)) \<noteq> newTxId (tx_rand (demo_draws 2))"
    using c4 [THEN conjunct2, THEN conjunct2, THEN conjunct2, THEN conjunct2, THEN conjunct2,
        of "tx_rand (demo_draws 1)" "tx_rand (demo_draws 2)"]
    by (simp add: demo_draws_def)
qed

text \<open>
  Claim C5. \<open>decryptRecord\<close> checks, in this order: the provider identifier
  (\<open>InvalidArgument\<close>), the record (\<open>NotFound\<close>), the consent between the record's
  patient and the requesting provider (\<open>AccessDenied\<close>), the stored blob
  (\<open>StorageMissing\<close>) and the cipher (\<open>DecryptionFailed\<close>). Every failure returns the
  state it was given, so no audit or ledger entry is appended.
\<close>

theorem decryptRecord_failures_in_order:
  "(falsy prov \<longrightarrow> decryptRecord C st rid prov d = (st, Inl InvalidArgument)) \<and>
   (prov = Some r \<and> r \<noteq> [] \<and> find (\<lambda>x. recordId x = rid) (records st) = None \<longrightarrow>
      decryptRecord C st rid prov d = (st, Inl NotFound)) \<and>
   (prov = Some r \<and> r \<noteq> [] \<and> find (\<lambda>x. recordId x = rid) (records st) = Some rec \<and>
    \<not> hasConsent st (r_patientId rec) r \<longrightarrow>
      decryptRecord C st rid prov d = (st, Inl AccessDenied)) \<and>
   (prov = Some r \<and> r \<noteq> [] \<and> find (\<lambda>x. recordId x = rid) (records st) = Some rec \<and>
    hasConsent st (r_patientId rec) r \<and> UPLOADS st (filename rec) = None \<longrightarrow>
      decryptRecord C st rid prov d = (st, Inl StorageMissing)) \<and>
   (prov = Some r \<and> r \<noteq> [] \<and> find (\<lambda>x. recordId x = rid) (records st) = Some rec \<and>
    hasConsent st (r_patientId rec) r \<and> UPLOADS st (filename rec) = Some (Enc_json enc) \<and>
    decryptBuffer C (ENC_KEY st) (enc_data enc) (enc_iv enc) = None \<longrightarrow>
      decryptRecord C st rid prov d = (st, Inl DecryptionFailed)) \<and>
   (decryptRecord C st rid prov d = (st', Inl e) \<longrightarrow>
      st' = st \<and> audit st' = audit st \<and> readLedger st' = readLedger st)"
proof (intro conjI impI)
  assume "falsy prov"
  then show "decryptRecord C st rid prov d = (st, Inl InvalidArgument)"
    by (rule decryptRecord_no_provider)
next
  assume "prov = Some r \<and> r \<noteq> [] \<and> find (\<lambda>x. recordId x = rid) (records st) = None"
  then show "decryptRecord C st rid prov d = (st, Inl NotFound)"
    by (simp add: decryptRecord_not_found falsy_def)
next
  assume "prov = Some r \<and> r \<noteq> [] \<and> find (\<lambda>x. recordId x = rid) (records st) = Some rec \<and>
    \<not> hasConsent st (r_patientId rec) r"
  then show "decryptRecord C st rid prov d = (st, Inl AccessDenied)"
    using decryptRecord_denied by blast
next
  assume "prov = Some r \<and> r \<noteq> [] \<and> find (\<lambda>x. recordId x = rid) (records st) = Some rec \<and>
    hasConsent st (r_patientId rec) r \<and> UPLOADS st (filename rec) = None"
  then show "decryptRecord C st rid prov d = (st, Inl StorageMissing)"
    using decryptRecord_storage_missing by blast
next
  assume "prov = Some r \<and> r \<noteq> [] \<and> find (\<lambda>x. recordId x = rid) (records st) = Some rec \<and>
    hasConsent st (r_patientId rec) r \<and> UPLOADS st (filename rec) = Some (Enc_json enc) \<and>
    decryptBuffer C (ENC_KEY st) (enc_data enc) (enc_iv enc) = None"
  then show "decryptRecord C st rid prov d = (st, Inl DecryptionFailed)"
    using decryptRecord_cipher_throws by blast
next
  assume f: "decryptRecord C st rid prov d = (st', Inl e)"
  then show "st' = st" by (rule decryptRecord_failure)
  then show "audit st' = audit st" and "readLedger st' = readLedger st" by simp_all
qed

theorem decryptRecord_failures_in_order_witness:
  "decryptRecord shift_cipher stored_state ''none'' None (demo_draws 4)
     = (stored_state, Inl InvalidArgument) \<and>
   decryptRecord shift_cipher stored_state ''none'' (Some ''doc-2'') (demo_draws 4)
     = (stored_state, Inl NotFound) \<and>
   decryptRecord shift_cipher stored_state (recordId hello_record) (Some ''doc-2'') (demo_draws 4)
     = (stored_state, Inl AccessDenied) \<and>
   decryptRecord shift_cipher (stored_state\<lparr>UPLOADS := Map.empty\<rparr>) (recordId hello_record)
       (Some ''doc-1'') (demo_draws 4)
     = (stored_state\<lparr>UPLOADS := Map.empty\<rparr>, Inl StorageMissing) \<and>
   decryptRecord reject_cipher stored_state (recordId hello_record) (Some ''doc-1'') (demo_draws 4)
     = (stored_state, Inl DecryptionFailed) \<and>
   audit (fst (decryptRecord reject_cipher stored_state (recordId hello_record) (Some ''doc-1'')
                 (demo_draws 4))) = audit stored_state"
proof -
  have nc: "\<not> hasConsent stored_state (r_patientId hello_record) ''doc-2''"
    by (simp add: hasConsent_cong [OF stored_state_components(2)] granted_state_def
        pat1_doc1_def hasConsent_grantConsent demo_state_def)
  have c: "hasConsent stored_state (r_patientId hello_record) ''doc-1''"
    using hasConsent_stored_state by (simp add: hello_record_def new_record_def)
  have u: "UPLOADS stored_state (filename hello_record) = Some (Enc_json hello_enc)"
    using stored_state_components(3) by (simp add: hello_record_def new_record_def)
  have nf: "find (\<lambda>x. recordId x = ''none'') (records stored_state) = None"
    by (simp add: stored_state_components hello_record_def new_record_def)
  have rj: "decryptBuffer reject_cipher (ENC_KEY stored_state) (enc_data hello_enc)
              (enc_iv hello_enc) = None"
    by (simp add: decryptBuffer_def reject_cipher_def)
  note c5 = decryptRecord_failures_in_order
  have 1: "decryptRecord shift_cipher stored_state ''none'' None (demo_draws 4)
     = (stored_state, Inl InvalidArgument)"
    using c5 [THEN conjunct1, of None] by (simp add: falsy_def)
  have 2: "decryptRecord shift_cipher stored_state ''none'' (Some ''doc-2'') (demo_draws 4)
     = (stored_state, Inl NotFound)"
    using c5 [THEN conjunct2, THEN conjunct1, of "Some ''doc-2''" "''doc-2''" "''none''"
        stored_state] nf
    by simp
  have 3: "decryptRecord shift_cipher stored_state (recordId hello_record) (Some ''doc-2'')
       (demo_draws 4) = (stored_state, Inl AccessDenied)"
    using c5 [THEN conjunct2, THEN conjunct2, THEN conjunct1, of "Some ''doc-2''" "''doc-2''"
        "recordId hello_record" stored_state hello_record] nc find_hello
    by simp
  have 4: "decryptRecord shift_cipher (stored_state\<lparr>UPLOADS := Map.empty\<rparr>)
       (recordId hello_record) (Some ''doc-1'') (demo_draws 4)
     = (stored_state\<lparr>UPLOADS := Map.empty\<rparr>, Inl StorageMissing)"
    using c5 [THEN conjunct2, THEN conjunct2, THEN conjunct2, THEN conjunct1,
        of "Some ''doc-1''" "''doc-1''" "recordId hello_record"
        "stored_state\<lparr>UPLOADS := Map.empty\<rparr>" hello_record] c find_hello
    by simp
  have 5: "decryptRecord reject_cipher stored_state (recordId hello_record) (Some ''doc-1'')
       (demo_draws 4) = (stored_state, Inl DecryptionFailed)"
    using c5 [THEN conjunct2, THEN conjunct2, THEN conjunct2, THEN conjunct2, THEN conjunct1,
        of "Some ''doc-1''" "''doc-1''" "recordId hello_record" stored_state hello_record
        hello_enc reject_cipher] c u rj find_hello
    by simp
  have 6: "audit (fst (decryptRecord reject_cipher stored_state (recordId hello_record)
                 (Some ''doc-1'') (demo_draws 4))) = audit stored_state"
    using c5 [THEN conjunct2, THEN conjunct2, THEN conjunct2, THEN conjunct2, THEN conjunct2,
        of reject_cipher stored_state "recordId hello_record" "Some ''doc-1''" "demo_draws 4"
        stored_state DecryptionFailed] 5
    by simp
  show ?thesis using 1 2 3 4 5 6 by blast
qed

text \<open>
  Claim C6, as stated, fails at these inputs. An upload without a file is answered
  \<open>InvalidArgument\<close> before the consent is looked at: with no grant the answer is not
  \<open>AccessDenied\<close>, and with an active grant the call does not succeed. And two
  successful uploads return the same record identifier when the random source returns the
  same eight bytes twice; nothing in the handler compares a new identifier with the stored
  ones.
\<close>

theorem addRecord_claim_counterexample:
  "\<not> hasConsent demo_state ''pat-1'' ''doc-1'' \<and>
   addRecord shift_cipher demo_state (upload_hello\<lparr>ar_file := None\<rparr>) (demo_draws 2)
     = (demo_state, Inl InvalidArgument) \<and>
   hasConsent granted_state ''pat-1'' ''doc-1'' \<and>
   addRecord shift_cipher granted_state (upload_hello\<lparr>ar_file := None\<rparr>) (demo_draws 2)
     = (granted_state, Inl InvalidArgument) \<and>
   fst (projr (snd (addRecord shift_cipher granted_state upload_hello (demo_draws 2))))
     = hello_record \<and>
   isl (snd (addRecord shift_cipher stored_state upload_again redraw)) = False \<and>
   recordId (fst (projr (snd (addRecord shift_cipher stored_state upload_again redraw))))
     = recordId hello_record \<and>
   recordId hello_record = ''0x02814ef025c76a19''"
proof -
  have n: "ar_patientId (upload_hello\<lparr>ar_file := None\<rparr>) = Some ''pat-1''"
    "ar_providerId (upload_hello\<lparr>ar_file := None\<rparr>) = Some ''doc-1''"
    "''pat-1'' \<noteq> []" "''doc-1'' \<noteq> []" "ar_file (upload_hello\<lparr>ar_file := None\<rparr>) = None"
    by (simp_all add: upload_hello_def)
  have v: "ar_patientId upload_again = Some ''pat-1''" "ar_providerId upload_again = Some ''doc-1''"
    "''pat-1'' \<noteq> []" "''doc-1'' \<noteq> []"
    "ar_file upload_again = Some (''c07d2e915a44'', [0x62, 0x79, 0x65])"
    by (simp_all add: upload_again_def)
  have e: "encryptBuffer shift_cipher (ENC_KEY stored_state) (iv_rand redraw) [0x62, 0x79, 0x65]
     = Some \<lparr>enc_iv = toString_hex (iv_rand redraw), enc_data = toString_hex [0x63, 0x7a, 0x66]\<rparr>"
    by (simp add: encryptBuffer_def shift_cipher_def)
  have h: "toString_hex (rid_rand (demo_draws 2)) = ''02814ef025c76a19''"
    by (simp add: demo_draws_def toString_hex_def hex_byte_def hex_digit_def)
  have 1: "\<not> hasConsent demo_state ''pat-1'' ''doc-1''"
    by (simp add: demo_state_def)
  have 2: "fst (projr (snd (addRecord shift_cipher granted_state upload_hello (demo_draws 2))))
     = hello_record"
    by (simp add: demo_add)
  have 3: "isl (snd (addRecord shift_cipher stored_state upload_again redraw)) = False"
    "recordId (fst (projr (snd (addRecord shift_cipher stored_state upload_again redraw))))
     = recordId hello_record"
    by (simp_all add: addRecord_valid [OF v hasConsent_stored_state e])
      (simp add: new_record_def redraw_def hello_record_def)
  have 4: "recordId hello_record = ''0x02814ef025c76a19''"
    by (simp add: new_record_def hello_record_def h)
  show ?thesis
    using 1 addRecord_no_file [OF n] hasConsent_granted_state 2 3 4 by simp
qed

text \<open>
  Claim C6, amended. With both identifiers present, \<open>addRecord\<close> without a file
  answers \<open>InvalidArgument\<close>, whatever the consent. With a file, it answers
  \<open>AccessDenied\<close> and stores no record metadata when the pair has no active grant; with
  an active grant, a cipher that honours its contract and a 16-byte initialisation vector
  it succeeds and appends the record. Two successful calls return the same record
  identifier exactly when they drew the same random bytes for it.
\<close>

theorem addRecord_gate_and_identifiers:
  "(ar_patientId req = Some p \<and> ar_providerId req = Some r \<and> p \<noteq> [] \<and> r \<noteq> [] \<and>
    ar_file req = None \<longrightarrow>
      addRecord C st req d = (st, Inl InvalidArgument)) \<and>
   (ar_patientId req = Some p \<and> ar_providerId req = Some r \<and> p \<noteq> [] \<and> r \<noteq> [] \<and>
    ar_file req = Some (fn, buf) \<and> \<not> hasConsent st p r \<longrightarrow>
      (\<exists>st'. addRecord C st req d = (st', Inl AccessDenied) \<and> records st' = records st)) \<and>
   (ar_patientId req = Some p \<and> ar_providerId req = Some r \<and> p \<noteq> [] \<and> r \<noteq> [] \<and>
    ar_file req = Some (fn, buf) \<and> hasConsent st p r \<and>
    cipher_ok C (ENC_KEY st) \<and> length (iv_rand d) = 16 \<longrightarrow>
      (\<exists>st' rec tx. addRecord C st req d = (st', Inr (rec, tx)) \<and>
         records st' = records st @ [rec])) \<and>
   (addRecord C st req d = (st1, Inr (rec1, tx1)) \<and>
    addRecord C sta reqa da = (st2, Inr (rec2, tx2)) \<longrightarrow>
      (recordId rec1 = recordId rec2 \<longleftrightarrow> rid_rand d = rid_rand da))"
proof (intro conjI impI)
  assume "ar_patientId req = Some p \<and> ar_providerId req = Some r \<and> p \<noteq> [] \<and> r \<noteq> [] \<and>
    ar_file req = None"
  then have v: "ar_patientId req = Some p" "ar_providerId req = Some r" "p \<noteq> []" "r \<noteq> []"
    "ar_file req = None"
    by simp_all
  show "addRecord C st req d = (st, Inl InvalidArgument)"
    by (rule addRecord_no_file [OF v])
next
  assume "ar_patientId req = Some p \<and> ar_providerId req = Some r \<and> p \<noteq> [] \<and> r \<noteq> [] \<and>
    ar_file req = Some (fn, buf) \<and> \<not> hasConsent st p r"
  then have v: "ar_patientId req = Some p" "ar_providerId req = Some r" "p \<noteq> []" "r \<noteq> []"
    "ar_file req = Some (fn, buf)" "\<not> hasConsent st p r"
    by simp_all
  show "\<exists>st'. addRecord C st req d = (st', Inl AccessDenied) \<and> records st' = records st"
    by (simp add: addRecord_denied [OF v])
next
  assume a: "ar_patientId req = Some p \<and> ar_providerId req = Some r \<and> p \<noteq> [] \<and> r \<noteq> [] \<and>
    ar_file req = Some (fn, buf) \<and> hasConsent st p r \<and>
    cipher_ok C (ENC_KEY st) \<and> length (iv_rand d) = 16"
  then have v: "ar_patientId req = Some p" "ar_providerId req = Some r" "p \<noteq> []" "r \<noteq> []"
    "ar_file req = Some (fn, buf)" "hasConsent st p r"
    by simp_all
  obtain enc where e: "encryptBuffer C (ENC_KEY st) (iv_rand d) buf = Some enc"
    using a encrypt_decrypt by blast
  show "\<exists>st' rec tx. addRecord C st req d = (st', Inr (rec, tx)) \<and>
         records st' = records st @ [rec]"
    by (simp add: addRecord_valid [OF v e])
next
  assume a: "addRecord C st req d = (st1, Inr (rec1, tx1)) \<and>
    addRecord C sta reqa da = (st2, Inr (rec2, tx2))"
  have 1: "recordId rec1 = ''0x'' @ toString_hex (rid_rand d)"
    using a by (auto elim!: addRecord_success simp: new_record_def)
  have 2: "recordId rec2 = ''0x'' @ toString_hex (rid_rand da)"
    using a by (auto elim!: addRecord_success simp: new_record_def)
  show "recordId rec1 = recordId rec2 \<longleftrightarrow> rid_rand d = rid_rand da"
    by (simp add: 1 2 toString_hex_inject)
qed

theorem addRecord_gate_and_identifiers_witness:
  "addRecord shift_cipher granted_state (upload_hello\<lparr>ar_file := None\<rparr>) (demo_draws 2)
     = (granted_state, Inl InvalidArgument) \<and>
   (\<exists>st'. addRecord shift_cipher demo_state upload_hello (demo_draws 2) = (st', Inl AccessDenied) \<and>
          records st' = records demo_state) \<and>
   (\<exists>st' rec tx. addRecord shift_cipher granted_state upload_hello (demo_draws 2)
                   = (st', Inr (rec, tx)) \<and>
                 records st' = records granted_state @ [rec]) \<and>
   recordId hello_record \<noteq>
     recordId (fst (projr (snd (addRecord shift_cipher stored_state upload_again (demo_draws 9)))))"
proof -
  note c6 = addRecord_gate_and_identifiers
  have v: "ar_patientId upload_hello = Some ''pat-1''" "ar_providerId upload_hello = Some ''doc-1''"
    "''pat-1'' \<noteq> []" "''doc-1'' \<noteq> []"
    "ar_file upload_hello = Some (''5b1e46a09c3d'', [0x68, 0x65, 0x6c, 0x6c, 0x6f])"
    by (simp_all add: upload_hello_def)
  have n: "\<not> hasConsent demo_state ''pat-1'' ''doc-1''"
    by (simp add: demo_state_def)
  have l: "length (iv_rand (demo_draws 2)) = 16"
    by (simp add: demo_draws_def)
  have 1: "\<exists>st'. addRecord shift_cipher demo_state upload_hello (demo_draws 2)
                  = (st', Inl AccessDenied) \<and> records st' = records demo_state"
    using c6 [THEN conjunct2, THEN conjunct1, rule_format, of upload_hello "''pat-1''" "''doc-1''"
        "''5b1e46a09c3d''" "[0x68, 0x65, 0x6c, 0x6c, 0x6f]" demo_state] v n
    by simp
  have 2: "\<exists>st' rec tx. addRecord shift_cipher granted_state upload_hello (demo_draws 2)
                   = (st', Inr (rec, tx)) \<and> records st' = records granted_state @ [rec]"
    using c6 [THEN conjunct2, THEN conjunct2, THEN conjunct1, rule_format, of upload_hello "''pat-1''" "''doc-1''"
        "''5b1e46a09c3d''" "[0x68, 0x65, 0x6c, 0x6c, 0x6f]" granted_state shift_cipher
        "demo_draws 2"] v hasConsent_granted_state cipher_ok_shift l
    by simp
  have w: "ar_patientId upload_again = Some ''pat-1''" "ar_providerId upload_again = Some ''doc-1''"
    "''pat-1'' \<noteq> []" "''doc-1'' \<noteq> []"
    "ar_file upload_again = Some (''c07d2e915a44'', [0x62, 0x79, 0x65])"
    by (simp_all add: upload_again_def)
  have e: "encryptBuffer shift_cipher (ENC_KEY stored_state) (iv_rand (demo_draws 9))
       [0x62, 0x79, 0x65]
     = Some \<lparr>enc_iv = toString_hex (iv_rand (demo_draws 9)),
             enc_data = toString_hex [0x63, 0x7a, 0x66]\<rparr>"
    by (simp add: encryptBuffer_def shift_cipher_def)
  let ?again = "addRecord shift_cipher stored_state upload_again (demo_draws 9)"
  have again: "?again = (fst ?again, Inr (fst (projr (snd ?again)), snd (projr (snd ?again))))"
    by (simp add: addRecord_valid [OF w hasConsent_stored_state e])
  have ne: "rid_rand (demo_draws 2) \<noteq> rid_rand (demo_draws 9)"
    by (simp add: demo_draws_def)
  have 3: "recordId hello_record \<noteq> recordId (fst (projr (snd ?again)))"
    using c6 [THEN conjunct2, THEN conjunct2, THEN conjunct2, rule_format, OF conjI,
        OF demo_add again] ne
    by simp
  have 0: "addRecord shift_cipher granted_state (upload_hello\<lparr>ar_file := None\<rparr>) (demo_draws 2)
     = (granted_state, Inl InvalidArgument)"
    using c6 [THEN conjunct1, rule_format, of "upload_hello\<lparr>ar_file := None\<rparr>"
        "''pat-1''" "''doc-1''" shift_cipher granted_state "demo_draws 2"]
    by (simp add: upload_hello_def)
  show ?thesis using 0 1 2 3 by blast
qed

text \<open>
  Claim C7. The scenario, from any state the server can reach after start-up in which
  \<open>pat-1\<close> has no grant and the ledger is empty, for any values of the clock and the
  random source and any cipher that honours its contract: the first upload is denied; the
  grant returns a transaction identifier and makes the consent check true; the upload of
  \<open>hello\<close> succeeds with a record \<open>R1\<close>; decrypting \<open>R1\<close> returns \<open>hello\<close>; the
  revoke returns a transaction identifier; decrypting \<open>R1\<close> is then denied; and the
  ledger holds exactly four entries, in the order grant, add, decrypt, revoke.
\<close>

theorem concrete_scenario:
  assumes "st = run C (startup key lf up) rs"
    and "\<forall>r. \<not> hasConsent st ''pat-1'' r" and "readLedger st = []"
    and "cipher_ok C key" and "length (iv_rand d3) = 16"
  shows "\<exists>st1 st2 tx1 t1 st3 R1 tx3 st4 st5 tx2 t2.
     addRecord C st
       \<lparr>ar_patientId = Some ''pat-1'', ar_providerId = Some ''doc-1'',
         ar_file = Some (fn0, bytes0)\<rparr> d1 = (st1, Inl AccessDenied) \<and>
     grantConsent st1 pat1_doc1 d2 = (st2, Inr (tx1, t1)) \<and>
     hasConsent st2 ''pat-1'' ''doc-1'' \<and>
     addRecord C st2
       \<lparr>ar_patientId = Some ''pat-1'', ar_providerId = Some ''doc-1'',
         ar_file = Some (fn, [0x68, 0x65, 0x6c, 0x6c, 0x6f])\<rparr> d3 = (st3, Inr (R1, tx3)) \<and>
     decryptRecord C st3 (recordId R1) (Some ''doc-1'') d4
       = (st4, Inr [0x68, 0x65, 0x6c, 0x6c, 0x6f]) \<and>
     revokeConsent st4 pat1_doc1 d5 = (st5, Inr (tx2, t2)) \<and>
     decryptRecord C st5 (recordId R1) (Some ''doc-1'') d6 = (st5, Inl AccessDenied) \<and>
     map (\<lambda>l. (map_of l ''type'', map_of l ''tx'')) (readLedger st5) =
       [(Some ''CONSENT_GRANTED'', Some tx1), (Some ''RECORD_ADDED'', Some tx3),
        (Some ''DOWNLOAD_DECRYPT'', Some (newTxId (tx_rand d4))),
        (Some ''CONSENT_REVOKED'', Some tx2)]"
proof -
  have "records st = []"
    using assms(1,3) empty_ledger_no_records by blast
  moreover have "cipher_ok C (ENC_KEY st)"
    using assms(1,4) by (simp add: startup_def)
  ultimately show ?thesis
    using scenario_from_unused_state [OF assms(2,3) _ _ assms(5)] by blast
qed

theorem concrete_scenario_witness:
  "\<exists>st1 st2 tx1 t1 st3 R1 tx3 st4 st5 tx2 t2.
     addRecord shift_cipher
       (run shift_cipher demo_state [(ListRecords ''pat-1'' ''doc-1'', demo_draws 0)])
       \<lparr>ar_patientId = Some ''pat-1'', ar_providerId = Some ''doc-1'',
         ar_file = Some (''e2907b13f6a8'', [0x01, 0x02, 0x03])\<rparr> (demo_draws 1)
       = (st1, Inl AccessDenied) \<and>
     grantConsent st1 pat1_doc1 (demo_draws 2) = (st2, Inr (tx1, t1)) \<and>
     hasConsent st2 ''pat-1'' ''doc-1'' \<and>
     addRecord shift_cipher st2
       \<lparr>ar_patientId = Some ''pat-1'', ar_providerId = Some ''doc-1'',
         ar_file = Some (''5b1e46a09c3d'', [0x68, 0x65, 0x6c, 0x6c, 0x6f])\<rparr> (demo_draws 3)
       = (st3, Inr (R1, tx3)) \<and>
     decryptRecord shift_cipher st3 (recordId R1) (Some ''doc-1'') (demo_draws 4)
       = (st4, Inr [0x68, 0x65, 0x6c, 0x6c, 0x6f]) \<and>
     revokeConsent st4 pat1_doc1 (demo_draws 5) = (st5, Inr (tx2, t2)) \<and>
     decryptRecord shift_cipher st5 (recordId R1) (Some ''doc-1'') (demo_draws 6)
       = (st5, Inl AccessDenied) \<and>
     map (\<lambda>l. (map_of l ''type'', map_of l ''tx'')) (readLedger st5) =
       [(Some ''CONSENT_GRANTED'', Some tx1), (Some ''RECORD_ADDED'', Some tx3),
        (Some ''DOWNLOAD_DECRYPT'', Some (newTxId (tx_rand (demo_draws 4)))),
        (Some ''CONSENT_REVOKED'', Some tx2)]"
proof -
  let ?st = "run shift_cipher demo_state [(ListRecords ''pat-1'' ''doc-1'', demo_draws 0)]"
  have s: "?st = demo_state"
    by (simp add: listRecords_denied demo_state_def)
  have 0: "?st = run shift_cipher (startup demo_key Absent Map.empty)
                   [(ListRecords ''pat-1'' ''doc-1'', demo_draws 0)]"
    by (simp add: demo_state_def)
  have 1: "\<forall>r. \<not> hasConsent ?st ''pat-1'' r"
    unfolding s by (simp add: demo_state_def)
  have 2: "readLedger ?st = []"
    unfolding s by (simp add: demo_state_def startup_def readLedger_def)
  have 3: "cipher_ok shift_cipher demo_key"
    by (rule cipher_ok_shift)
  have 4: "length (iv_rand (demo_draws 3)) = 16"
    by (simp add: demo_draws_def)
  show ?thesis
    using concrete_scenario [OF 0 1 2 3 4] .
qed

text \<open>
  Claim C8. The ledger is append-only: over any sequence of requests the entries readable
  before are a prefix of the entries readable after, so their number does not decrease,
  each keeps its position and content, and new entries come at the end.
  \<open>readLedger\<close> depends on the ledger file alone and returns the appended entries in
  the order of the appends.
\<close>

theorem ledger_append_only:
  "prefix (readLedger st) (readLedger (run C st rs)) \<and>
   length (readLedger st) \<le> length (readLedger (run C st rs)) \<and>
   (\<forall>i < length (readLedger st). readLedger (run C st rs) ! i = readLedger st ! i) \<and>
   readLedger (foldl (\<lambda>s (e, t). addToLedger s e t) st es) =
     readLedger st @ map (\<lambda>(e, t). AList.update ''timestamp'' t e) es \<and>
   (LEDGER_FILE st2 = LEDGER_FILE st \<longrightarrow> readLedger st2 = readLedger st)"
proof -
  obtain ls where ls: "readLedger (run C st rs) = readLedger st @ ls"
    using ledger_run by blast
  have "LEDGER_FILE st2 = LEDGER_FILE st \<longrightarrow> readLedger st2 = readLedger st"
    using readLedger_cong by blast
  then show ?thesis
    by (simp add: ls nth_append ledger_appends)
qed

theorem ledger_append_only_witness:
  "prefix (readLedger granted_state)
     (readLedger (run shift_cipher granted_state
        [(AddRecord upload_hello, demo_draws 2), (ReadLedger, demo_draws 3),
         (RevokeConsent pat1_doc1, demo_draws 5)])) \<and>
   readLedger (run shift_cipher granted_state [(AddRecord upload_hello, demo_draws 2)]) ! 0
     = readLedger granted_state ! 0 \<and>
   readLedger (foldl (\<lambda>s (e, t). addToLedger s e t) demo_state
       [([(''type'', ''A'')], ''t1''), ([(''type'', ''B'')], ''t2'')])
     = [[(''type'', ''A''), (''timestamp'', ''t1'')], [(''type'', ''B''), (''timestamp'', ''t2'')]] \<and>
   readLedger (granted_state\<lparr>audit := []\<rparr>) = readLedger granted_state"
proof (intro conjI)
  note c8 = ledger_append_only
  have l: "readLedger granted_state \<noteq> []"
    by (simp add: granted_state_def pat1_doc1_def grantConsent_valid)
  have e: "readLedger demo_state = []"
    by (simp add: demo_state_def startup_def readLedger_def)
  show "prefix (readLedger granted_state)
     (readLedger (run shift_cipher granted_state
        [(AddRecord upload_hello, demo_draws 2), (ReadLedger, demo_draws 3),
         (RevokeConsent pat1_doc1, demo_draws 5)]))"
    using c8 [THEN conjunct1] .
  show "readLedger (run shift_cipher granted_state [(AddRecord upload_hello, demo_draws 2)]) ! 0
     = readLedger granted_state ! 0"
    using c8 [THEN conjunct2, THEN conjunct2, THEN conjunct1, rule_format, of 0 granted_state] l
    by blast
  show "readLedger (foldl (\<lambda>s (e, t). addToLedger s e t) demo_state
       [([(''type'', ''A'')], ''t1''), ([(''type'', ''B'')], ''t2'')])
     = [[(''type'', ''A''), (''timestamp'', ''t1'')], [(''type'', ''B''), (''timestamp'', ''t2'')]]"
    using c8 [THEN conjunct2, THEN conjunct2, THEN conjunct2, THEN conjunct1, of demo_state
        "[([(''type'', ''A'')], ''t1''), ([(''type'', ''B'')], ''t2'')]"] e
    by simp
  show "readLedger (granted_state\<lparr>audit := []\<rparr>) = readLedger granted_state"
    using c8 [THEN conjunct2, THEN conjunct2, THEN conjunct2, THEN conjunct2, rule_format,
        of "granted_state\<lparr>audit := []\<rparr>" granted_state]
    by simp
qed

text \<open>
  Claim C9. A grant or a revoke whose \<open>patientId\<close> or \<open>providerId\<close> is missing or empty
  answers \<open>InvalidArgument\<close> and returns the state it was given: no consent entry, audit
  entry or ledger entry is written. With both identifiers present and non-empty the
  mutators succeed in every state, whatever the patient and provider lists hold.
\<close>

theorem consent_mutators_check_arguments:
  "(falsy (patientId b) \<or> falsy (providerId b) \<longrightarrow>
      grantConsent st b d = (st, Inl InvalidArgument) \<and>
      revokeConsent st b d = (st, Inl InvalidArgument)) \<and>
   (patientId b = Some p \<and> providerId b = Some r \<and> p \<noteq> [] \<and> r \<noteq> [] \<longrightarrow>
      (\<exists>st' tx t. grantConsent st b d = (st', Inr (tx, t))) \<and>
      (\<exists>st' tx t. revokeConsent st b d = (st', Inr (tx, t))))"
proof (intro conjI impI)
  assume "falsy (patientId b) \<or> falsy (providerId b)"
  then show "grantConsent st b d = (st, Inl InvalidArgument)"
    and "revokeConsent st b d = (st, Inl InvalidArgument)"
    by (simp_all add: grantConsent_invalid revokeConsent_invalid)
next
  assume "patientId b = Some p \<and> providerId b = Some r \<and> p \<noteq> [] \<and> r \<noteq> []"
  then have b: "patientId b = Some p" "providerId b = Some r" "p \<noteq> []" "r \<noteq> []"
    by simp_all
  show "\<exists>st' tx t. grantConsent st b d = (st', Inr (tx, t))"
    by (simp add: grantConsent_valid [OF b])
  show "\<exists>st' tx t. revokeConsent st b d = (st', Inr (tx, t))"
    by (simp add: revokeConsent_valid [OF b])
qed

theorem consent_mutators_check_arguments_witness:
  "grantConsent demo_state \<lparr>patientId = None, providerId = Some ''doc-1''\<rparr> (demo_draws 1)
     = (demo_state, Inl InvalidArgument) \<and>
   revokeConsent demo_state \<lparr>patientId = Some ''pat-1'', providerId = Some []\<rparr> (demo_draws 1)
     = (demo_state, Inl InvalidArgument) \<and>
   (\<exists>st' tx t.
      grantConsent demo_state \<lparr>patientId = Some ''pat-9'', providerId = Some ''doc-9''\<rparr>
        (demo_draws 1) = (st', Inr (tx, t))) \<and>
   (\<exists>st' tx t.
      revokeConsent demo_state \<lparr>patientId = Some ''pat-9'', providerId = Some ''doc-9''\<rparr>
        (demo_draws 1) = (st', Inr (tx, t)))"
  using
    consent_mutators_check_arguments
      [of "\<lparr>patientId = None, providerId = Some ''doc-1''\<rparr>" demo_state "demo_draws 1"]
    consent_mutators_check_arguments
      [of "\<lparr>patientId = Some ''pat-1'', providerId = Some []\<rparr>" demo_state "demo_draws 1"]
    consent_mutators_check_arguments
      [of "\<lparr>patientId = Some ''pat-9'', providerId = Some ''doc-9''\<rparr>" demo_state
        "demo_draws 1" "''pat-9''" "''doc-9''"]
  by (simp add: falsy_def)

text \<open>
  Claim C10. In every state reached from start-up by any sequence of requests, the consent
  list holds at most one entry for a pair of identifiers: a successful grant or revoke
  keeps the entries of the other pairs, drops every entry of its own pair and appends the
  new one.
\<close>

theorem consents_one_entry_per_pair:
  "one_entry_per_pair (run C (startup key lf up) rs) \<and>
   (patientId b = Some p \<and> providerId b = Some r \<and> p \<noteq> [] \<and> r \<noteq> [] \<longrightarrow>
      consents (fst (grantConsent st b d)) =
        filter (\<lambda>c. pair_of c \<noteq> (p, r)) (consents st) @
          [\<lparr>c_patientId = p, c_providerId = r, granted = True, c_timestamp = nowIso d 0\<rparr>] \<and>
      consents (fst (revokeConsent st b d)) =
        filter (\<lambda>c. pair_of c \<noteq> (p, r)) (consents st) @
          [\<lparr>c_patientId = p, c_providerId = r, granted = False, c_timestamp = nowIso d 0\<rparr>])"
proof (intro conjI impI)
  have "one_entry_per_pair (startup key lf up)"
    by (simp add: one_entry_per_pair_def startup_def)
  then show "one_entry_per_pair (run C (startup key lf up) rs)"
    by (rule one_entry_run)
next
  assume "patientId b = Some p \<and> providerId b = Some r \<and> p \<noteq> [] \<and> r \<noteq> []"
  then have b: "patientId b = Some p" "providerId b = Some r" "p \<noteq> []" "r \<noteq> []"
    by simp_all
  show "consents (fst (grantConsent st b d)) =
        filter (\<lambda>c. pair_of c \<noteq> (p, r)) (consents st) @
          [\<lparr>c_patientId = p, c_providerId = r, granted = True, c_timestamp = nowIso d 0\<rparr>]"
    by (simp add: grantConsent_valid [OF b] pair_of_def)
  show "consents (fst (revokeConsent st b d)) =
        filter (\<lambda>c. pair_of c \<noteq> (p, r)) (consents st) @
          [\<lparr>c_patientId = p, c_providerId = r, granted = False, c_timestamp = nowIso d 0\<rparr>]"
    by (simp add: revokeConsent_valid [OF b] pair_of_def)
qed

theorem consents_one_entry_per_pair_witness:
  "one_entry_per_pair
     (run shift_cipher demo_state
        [(GrantConsent pat1_doc1, demo_draws 1), (GrantConsent pat1_doc1, demo_draws 2),
         (RevokeConsent pat1_doc1, demo_draws 3)]) \<and>
   consents
     (fst (revokeConsent (fst (grantConsent demo_state pat1_doc1 (demo_draws 1)))
             pat1_doc1 (demo_draws 2))) =
     [\<lparr>c_patientId = ''pat-1'', c_providerId = ''doc-1'', granted = False,
        c_timestamp = ''2026-01-01T00:00:00.000Z''\<rparr>]"
  using
    consents_one_entry_per_pair [of shift_cipher demo_key Absent Map.empty
      "[(GrantConsent pat1_doc1, demo_draws 1), (GrantConsent pat1_doc1, demo_draws 2),
        (RevokeConsent pat1_doc1, demo_draws 3)]"
      pat1_doc1 "''pat-1''" "''doc-1''"
      "fst (grantConsent demo_state pat1_doc1 (demo_draws 1))" "demo_draws 2"]
    consents_one_entry_per_pair [of shift_cipher demo_key Absent Map.empty "[]"
      pat1_doc1 "''pat-1''" "''doc-1''" demo_state "demo_draws 1"]
  by (simp add: pat1_doc1_def demo_state_def startup_def pair_of_def demo_draws_def)

end
